theory Spec2Isabelle
  imports Main "HOL-Library.Word" "HOL-Library.Char_ord" "HOL-Library.List_Lexorder"
    "HOL-Library.Multiset" "HOL-Library.Code_Target_Nat"
begin

section \<open>The recordings backend (server.js)\<close>

text \<open>
  The server keeps recording metadata in one SQLite table and the payloads in a storage
  bucket. Each Express handler is embedded as a function from the state of both stores
  (the \<open>world\<close>) to a response and the new world. What a handler reads from outside the
  process during one request (the clock, the outcome of the storage provider's calls) is
  collected in an \<open>env\<close> record that comes with the request.
\<close>

subsection \<open>Data\<close>

type_synonym bytes = "8 word list"

text \<open>
  A row of table \<open>recordings\<close>, and the shape of a row object in JavaScript and of the
  \<open>recording\<close> object of a 201 reply. \<open>createdAt\<close> is text: the table stores what
  \<open>CURRENT_TIMESTAMP\<close> renders, the reply what \<open>toISOString\<close> renders. In the table an id
  is a 64-bit integer; in JavaScript it is a number, see \<open>number_of_int\<close> below.
\<close>

record recording =
  id_col :: int
  filename :: string
  url :: string
  filesize :: nat
  createdAt :: string

text \<open>
  The database file: the rows of \<open>recordings\<close> in rowid order, and the counter that
  \<open>AUTOINCREMENT\<close> keeps for the table in \<open>sqlite_sequence\<close> (0 before the first insert).
\<close>

record database =
  rows :: "recording list"
  seq :: int

text \<open>What a call to the engine rejects with: the table is full, or any other error.\<close>

datatype db_error = SQLITE_FULL | SQLITE_ERROR string

datatype storage_call = Upload string bytes string | Remove "string list"

text \<open>
  The two stores: the database, the objects of bucket \<open>uploads\<close> by name, and the log of
  the requests sent to the storage provider.
\<close>

record world =
  db :: database
  objects :: "string \<rightharpoonup> bytes"
  calls :: "storage_call list"

text \<open>\<open>req.file\<close> as multer's memory storage fills it.\<close>

record upload_file =
  buffer :: bytes
  size_f :: nat

datatype multer_error = LIMIT_UNEXPECTED_FILE

text \<open>
  What one request observes of the outside: \<open>Date.now()\<close> (line 78), the
  \<open>storageError\<close> of the upload (line 81) and of the removal (line 157), \<open>None\<close> when the
  provider reports success, the text \<open>CURRENT_TIMESTAMP\<close> evaluates to at the insert,
  \<open>new Date().toISOString()\<close> (line 107), and the error with which the engine rejects
  the request's \<open>db.get\<close>, \<open>db.all\<close> or \<open>db.run\<close> (a locked file, a failing disk), \<open>None\<close>
  when the engine carries the call out.
\<close>

record env =
  date_now :: int
  upload_error :: "string option"
  current_timestamp :: string
  iso_now :: string
  remove_error :: "string option"
  get_error :: "string option"
  all_error :: "string option"
  run_error :: "string option"

text \<open>
  What is fixed when the process starts: the address prefix under which the provider
  publishes objects, the engine's conversion of a bound text parameter to a rowid
  (the comparison \<open>id = ?\<close> gives the text numeric affinity; \<open>None\<close> when the text is no
  integer), and the frontend build folder of lines 177 to 184, if one exists.
\<close>

record deps =
  public_base :: string
  rowid_of_text :: "string \<Rightarrow> int option"
  buildFolder :: "string option"

datatype http_method = GET | HEAD | POST | PUT | PATCH | DELETE | OPTIONS

text \<open>
  Which route pattern the request path matches (Express does the matching), with the
  \<open>:id\<close> parameter as the text it is.
\<close>

datatype target = ApiRecordings | ApiRecordingsId string | OtherPath

datatype body =
    JsonError string
  | JsonMessage string
  | JsonCreated string recording
  | JsonRows "recording list"
  | Location string
  | Text string
  | SentFile string
  | StaticFile string
  | ErrorPage
  | NoBody


text \<open>
  Why the JSON body parser refuses a body (malformed JSON, a body over the size limit,
  an encoding it does not support), and what the static middleware finds for a path
  under the build folder (a file, which it sends, or a directory named without the
  final slash, to which it redirects).
\<close>

datatype body_refusal = Malformed | TooLarge | Unsupported

datatype static_hit = File string | Directory string

text \<open>
  A request as the middleware sees it. \<open>body_refused\<close> is \<open>None\<close> when the body parser lets
  the request pass; \<open>files\<close> are the file parts of a multipart body; \<open>static_answer\<close> is
  \<open>None\<close> when the static middleware finds nothing for the path and passes the request
  on.
\<close>

record request =
  http_method :: http_method
  target :: target
  origin :: "string option"
  body_refused :: "body_refusal option"
  files :: "(string \<times> bytes) list"
  static_answer :: "static_hit option"

type_synonym response = "nat \<times> body"

subsection \<open>Strings\<close>

text \<open>The template literal of line 78 renders the integer \<open>Date.now()\<close> in decimal.\<close>

definition digit_char :: "nat \<Rightarrow> char" where
  "digit_char n = ''0123456789'' ! (n mod 10)"

fun string_of_nat :: "nat \<Rightarrow> string" where
  "string_of_nat n =
     (if n < 10 then [digit_char n] else string_of_nat (n div 10) @ [digit_char n])"

definition number_to_string :: "int \<Rightarrow> string" where
  "number_to_string i =
     (if i < 0 then CHR ''-'' # string_of_nat (nat (- i)) else string_of_nat (nat i))"

text \<open>
  \<open>s.split(c)\<close> for a one-character separator: the pieces between the separators, of
  which there is always at least one. The piece being read is kept reversed.
\<close>

fun split_from :: "char \<Rightarrow> string \<Rightarrow> string \<Rightarrow> string list" where
  "split_from c piece [] = [rev piece]"
| "split_from c piece (x # xs) =
     (if x = c then rev piece # split_from c [] xs else split_from c (x # piece) xs)"

definition split_on :: "char \<Rightarrow> string \<Rightarrow> string list" where
  "split_on c s = split_from c [] s"

text \<open>\<open>pop()\<close> on the array \<open>split\<close> returns; that array is never empty.\<close>

definition pop :: "string list \<Rightarrow> string" where
  "pop xs = last xs"

subsection \<open>The metadata store\<close>

text \<open>
  The driver hands an integer of the table to JavaScript as a number, a binary64 float:
  exact up to \<open>2 ^ 53\<close> in absolute value, beyond that the nearest multiple of the spacing
  of floats at that magnitude, ties to the even multiple.
\<close>

fun bit_length :: "nat \<Rightarrow> nat" where
  "bit_length n = (if n = 0 then 0 else Suc (bit_length (n div 2)))"

definition number_of_int :: "int \<Rightarrow> int" where
  "number_of_int n =
     (if \<bar>n\<bar> \<le> 2 ^ 53 then n
      else
        let ulp = 2 ^ (bit_length (nat \<bar>n\<bar>) - 53);
            q = \<bar>n\<bar> div ulp;
            r = \<bar>n\<bar> mod ulp;
            m = (if 2 * r < ulp \<or> (2 * r = ulp \<and> even q) then q else q + 1)
        in sgn n * (m * ulp))"

text \<open>A row as the driver returns it from \<open>db.get\<close> and \<open>db.all\<close>.\<close>

definition js_row :: "recording \<Rightarrow> recording" where
  "js_row r = r\<lparr>id_col := number_of_int (id_col r)\<rparr>"

definition MAX_ROWID :: int where
  "MAX_ROWID = 9223372036854775807"

definition max_rowid :: "recording list \<Rightarrow> int" where
  "max_rowid rs = fold max (map id_col rs) 0"

text \<open>
  Every call to the engine takes the error the engine rejects it with, if any, and
  returns either the error, for the handler's \<open>catch\<close>, or the result.

  \<open>INSERT INTO recordings (filename, url, filesize) VALUES (?, ?, ?)\<close> on the schema of
  lines 59 to 65. The id is \<open>AUTOINCREMENT\<close>: one more than the larger of the largest
  rowid in the table and the counter of \<open>sqlite_sequence\<close>, and the insert fails with
  \<open>SQLITE_FULL\<close> once either has reached the largest 64-bit rowid. \<open>createdAt\<close> takes its
  default. The result carries \<open>lastID\<close>, a JavaScript number.
\<close>

definition db_insert ::
  "string option \<Rightarrow> string \<Rightarrow> string \<Rightarrow> string \<Rightarrow> nat \<Rightarrow> database
     \<Rightarrow> db_error + (int \<times> database)" where
  "db_insert rejected now fname u sz d =
     (case rejected of
        Some msg \<Rightarrow> Inl (SQLITE_ERROR msg)
      | None \<Rightarrow>
          (let v = max_rowid (rows d) in
           if MAX_ROWID \<le> v \<or> seq d = MAX_ROWID then Inl SQLITE_FULL
           else
             let k = max (v + 1) (seq d + 1);
                 r = \<lparr>id_col = k, filename = fname, url = u, filesize = sz, createdAt = now\<rparr>
             in Inr (number_of_int k, \<lparr>rows = rows d @ [r], seq = k\<rparr>)))"

text \<open>
  \<open>SELECT * FROM recordings WHERE id = ?\<close> through \<open>db.get\<close>: the first match, as a row
  object, or \<open>undefined\<close>.
\<close>

definition db_get ::
  "(string \<Rightarrow> int option) \<Rightarrow> string \<Rightarrow> string option \<Rightarrow> database
     \<Rightarrow> db_error + recording option" where
  "db_get conv p rejected d =
     (case rejected of
        Some msg \<Rightarrow> Inl (SQLITE_ERROR msg)
      | None \<Rightarrow> Inr (map_option js_row (find (\<lambda>r. conv p = Some (id_col r)) (rows d))))"

text \<open>\<open>DELETE FROM recordings WHERE id = ?\<close>; the counter of \<open>sqlite_sequence\<close> stays.\<close>

definition db_delete ::
  "(string \<Rightarrow> int option) \<Rightarrow> string \<Rightarrow> string option \<Rightarrow> database \<Rightarrow> db_error + database" where
  "db_delete conv p rejected d =
     (case rejected of
        Some msg \<Rightarrow> Inl (SQLITE_ERROR msg)
      | None \<Rightarrow> Inr (d\<lparr>rows := filter (\<lambda>r. conv p \<noteq> Some (id_col r)) (rows d)\<rparr>))"

text \<open>
  \<open>SELECT * FROM recordings ORDER BY createdAt DESC\<close> through \<open>db.all\<close>: text compares
  bytewise, and rows of equal \<open>createdAt\<close> come in rowid order, as the engine returns them
  (SQL leaves that order open, and no statement below is about it).
\<close>

definition order_by_createdAt_desc :: "recording list \<Rightarrow> recording list" where
  "order_by_createdAt_desc rs = rev (sort_key createdAt (rev rs))"

definition db_all :: "string option \<Rightarrow> database \<Rightarrow> db_error + recording list" where
  "db_all rejected d =
     (case rejected of
        Some msg \<Rightarrow> Inl (SQLITE_ERROR msg)
      | None \<Rightarrow> Inr (map js_row (order_by_createdAt_desc (rows d))))"

subsection \<open>The object store client\<close>

text \<open>
  Modelled from the spec: the storage provider's client is not part of the sources.
  An upload writes the object under its name unless the provider reports an error;
  a removal deletes the named objects unless the provider reports an error; each call
  is one request to the provider.
\<close>

definition storage_upload :: "string \<Rightarrow> bytes \<Rightarrow> string \<Rightarrow> string option \<Rightarrow> world \<Rightarrow> world" where
  "storage_upload name payload contentType err w =
     w\<lparr>objects := (if err = None then (objects w)(name \<mapsto> payload) else objects w),
       calls := calls w @ [Upload name payload contentType]\<rparr>"

definition storage_remove :: "string list \<Rightarrow> string option \<Rightarrow> world \<Rightarrow> world" where
  "storage_remove names err w =
     w\<lparr>objects := (if err = None then (\<lambda>n. if n \<in> set names then None else objects w n)
                   else objects w),
       calls := calls w @ [Remove names]\<rparr>"

text \<open>
  Modelled from the spec: \<open>getPublicUrl\<close> belongs to the provider's client, which is not
  part of the sources. The spec describes it as the deterministic construction of the
  object's public address from the object name, without a request to the provider, and
  notes that the delete path takes the address to end in the object's storage name. The
  model is that scheme: the provider's prefix, the bucket \<open>uploads\<close>, the name.
\<close>

definition getPublicUrl :: "string \<Rightarrow> string \<Rightarrow> string" where
  "getPublicUrl base name = base @ ''/uploads/'' @ name"

subsection \<open>The handlers\<close>

text \<open>Line 78.\<close>

definition uniqueName :: "env \<Rightarrow> string" where
  "uniqueName e = ''recording-'' @ number_to_string (date_now e) @ ''.webm''"

text \<open>Lines 74 to 114, after multer has set \<open>req.file\<close>.\<close>

definition post_recordings ::
  "deps \<Rightarrow> env \<Rightarrow> upload_file option \<Rightarrow> world \<Rightarrow> response \<times> world" where
  "post_recordings d e file w =
     (case file of
        None \<Rightarrow> ((400, JsonError ''No file uploaded''), w)
      | Some f \<Rightarrow>
          (let w1 = storage_upload (uniqueName e) (buffer f) ''video/webm'' (upload_error e) w
           in (case upload_error e of
                 Some storageError \<Rightarrow> ((500, JsonError ''Failed to upload recording''), w1)
               | None \<Rightarrow>
                   (let publicUrl = getPublicUrl (public_base d) (uniqueName e)
                    in (case db_insert (run_error e) (current_timestamp e) (uniqueName e)
                               publicUrl (size_f f) (db w1) of
                          Inl err \<Rightarrow> ((500, JsonError ''Failed to upload recording''), w1)
                        | Inr (lastID, db') \<Rightarrow>
                            ((201, JsonCreated ''Recording uploaded successfully''
                                     \<lparr>id_col = lastID, filename = uniqueName e, url = publicUrl,
                                      filesize = size_f f, createdAt = iso_now e\<rparr>),
                             w1\<lparr>db := db'\<rparr>))))))"

text \<open>Lines 117 to 127.\<close>

definition get_recordings :: "env \<Rightarrow> world \<Rightarrow> response \<times> world" where
  "get_recordings e w =
     (case db_all (all_error e) (db w) of
        Inl err \<Rightarrow> ((500, JsonError ''Failed to fetch recordings''), w)
      | Inr recordings \<Rightarrow> ((200, JsonRows recordings), w))"

text \<open>Lines 130 to 144.\<close>

definition get_recording :: "deps \<Rightarrow> env \<Rightarrow> string \<Rightarrow> world \<Rightarrow> response \<times> world" where
  "get_recording d e p w =
     (case db_get (rowid_of_text d) p (get_error e) (db w) of
        Inl err \<Rightarrow> ((500, JsonError ''Failed to stream recording''), w)
      | Inr None \<Rightarrow> ((404, JsonError ''Recording not found''), w)
      | Inr (Some recording) \<Rightarrow> ((302, Location (url recording)), w))"

text \<open>Lines 147 to 174.\<close>

definition delete_recording :: "deps \<Rightarrow> env \<Rightarrow> string \<Rightarrow> world \<Rightarrow> response \<times> world" where
  "delete_recording d e p w =
     (case db_get (rowid_of_text d) p (get_error e) (db w) of
        Inl err \<Rightarrow> ((500, JsonError ''Failed to delete recording''), w)
      | Inr None \<Rightarrow> ((404, JsonError ''Recording not found''), w)
      | Inr (Some recording) \<Rightarrow>
          (let fileName = pop (split_on CHR ''/'' (url recording));
               w1 = storage_remove [fileName] (remove_error e) w
           in (case remove_error e of
                 Some storageError \<Rightarrow>
                   ((500, JsonError ''Failed to delete file from Supabase''), w1)
               | None \<Rightarrow>
                   (case db_delete (rowid_of_text d) p (run_error e) (db w1) of
                      Inl err \<Rightarrow> ((500, JsonError ''Failed to delete recording''), w1)
                    | Inr db' \<Rightarrow>
                        ((200, JsonMessage ''Recording deleted successfully''),
                         w1\<lparr>db := db'\<rparr>)))))"

subsection \<open>The middleware chain\<close>

definition allowedOrigins :: "string list" where
  "allowedOrigins = [''http://localhost:5173'', ''https://frontend-eta-bay-40.vercel.app'']"

text \<open>Line 37: no \<open>Origin\<close> header, an empty one, or a listed one.\<close>

definition origin_allowed :: "string option \<Rightarrow> bool" where
  "origin_allowed hdr =
     (case hdr of None \<Rightarrow> True | Some s \<Rightarrow> s = [] \<or> s \<in> set allowedOrigins)"

text \<open>
  \<open>upload.single("recording")\<close>: a file part under another field name, or a second file
  part, is an error; no file part leaves \<open>req.file\<close> undefined.
\<close>

definition single :: "string \<Rightarrow> (string \<times> bytes) list \<Rightarrow> multer_error + upload_file option" where
  "single field parts =
     (if \<exists>part \<in> set parts. fst part \<noteq> field then Inl LIMIT_UNEXPECTED_FILE
      else case parts of
             [] \<Rightarrow> Inr None
           | [part] \<Rightarrow> Inr (Some \<lparr>buffer = snd part, size_f = length (snd part)\<rparr>)
           | _ \<Rightarrow> Inl LIMIT_UNEXPECTED_FILE)"

definition post_route :: "deps \<Rightarrow> env \<Rightarrow> request \<Rightarrow> world \<Rightarrow> response \<times> world" where
  "post_route d e q w =
     (case single ''recording'' (files q) of
        Inl err \<Rightarrow> ((500, ErrorPage), w)
      | Inr file \<Rightarrow> post_recordings d e file w)"

text \<open>A route registered with \<open>app.get\<close> also answers HEAD.\<close>

definition is_get :: "http_method \<Rightarrow> bool" where
  "is_get m = (m = GET \<or> m = HEAD)"

datatype api_op = CreateOp | ListOp | GetOp string | DeleteOp string

text \<open>The four routes of lines 74, 117, 130 and 147.\<close>

definition api_route :: "request \<Rightarrow> api_op option" where
  "api_route q =
     (case target q of
        ApiRecordings \<Rightarrow>
          (if http_method q = POST then Some CreateOp
           else if is_get (http_method q) then Some ListOp else None)
      | ApiRecordingsId p \<Rightarrow>
          (if is_get (http_method q) then Some (GetOp p)
           else if http_method q = DELETE then Some (DeleteOp p) else None)
      | OtherPath \<Rightarrow> None)"

text \<open>
  Lines 186 to 200, reached when no route above answered: with a build folder, the
  static middleware answers GET and HEAD for a path it serves, the catch-all answers
  every other GET and HEAD with the entry document; what is left gets the fallback.
\<close>

definition static_reply :: "static_hit \<Rightarrow> response" where
  "static_reply hit =
     (case hit of
        File path \<Rightarrow> (200, StaticFile path)
      | Directory path \<Rightarrow> (301, Location (path @ ''/'')))"

definition frontend_or_404 :: "deps \<Rightarrow> request \<Rightarrow> response" where
  "frontend_or_404 d q =
     (case buildFolder d of
        Some folder \<Rightarrow>
          (if is_get (http_method q) then
             (case static_answer q of
                Some hit \<Rightarrow> static_reply hit
              | None \<Rightarrow> (200, SentFile (folder @ ''/index.html'')))
           else (404, Text ''Route not found''))
      | None \<Rightarrow> (404, Text ''Route not found''))"

text \<open>
  The application, in the order of registration: the CORS middleware (a refused origin
  is an error, a preflight is answered at once), the JSON body parser, the routes, the
  frontend, the fallback.
\<close>

definition refusal_status :: "body_refusal \<Rightarrow> nat" where
  "refusal_status why = (case why of Malformed \<Rightarrow> 400 | TooLarge \<Rightarrow> 413 | Unsupported \<Rightarrow> 415)"

definition app :: "deps \<Rightarrow> env \<Rightarrow> request \<Rightarrow> world \<Rightarrow> response \<times> world" where
  "app d e q w =
     (if \<not> origin_allowed (origin q) then ((500, ErrorPage), w)
      else if http_method q = OPTIONS then ((204, NoBody), w)
      else (case body_refused q of
              Some why \<Rightarrow> ((refusal_status why, ErrorPage), w)
            | None \<Rightarrow>
                (case api_route q of
                   Some CreateOp \<Rightarrow> post_route d e q w
                 | Some ListOp \<Rightarrow> get_recordings e w
                 | Some (GetOp p) \<Rightarrow> get_recording d e p w
                 | Some (DeleteOp p) \<Rightarrow> delete_recording d e p w
                 | None \<Rightarrow> (frontend_or_404 d q, w))))"

text \<open>A sequence of requests, served one after the other.\<close>

fun run :: "deps \<Rightarrow> world \<Rightarrow> (env \<times> request) list \<Rightarrow> response list \<times> world" where
  "run d w [] = ([], w)"
| "run d w (eq # eqs) =
     (let (r, w1) = app d (fst eq) (snd eq) w;
          (rs, w2) = run d w1 eqs
      in (r # rs, w2))"

text \<open>
  The table as the server's statements leave it. No insert names an id, so every id is
  one \<open>AUTOINCREMENT\<close> assigned: positive, distinct (\<open>PRIMARY KEY\<close>), and at most the
  counter.
\<close>

definition wf_db :: "database \<Rightarrow> bool" where
  "wf_db d =
     (distinct (map id_col (rows d))
      \<and> list_all (\<lambda>r. 0 < id_col r \<and> id_col r \<le> seq d) (rows d))"

text \<open>The id a 201 reply carries, and the ids a listing carries, in its order.\<close>

definition created_id :: "response \<Rightarrow> int option" where
  "created_id r = (case r of (_, JsonCreated _ rc) \<Rightarrow> Some (id_col rc) | _ \<Rightarrow> None)"

definition listed_ids :: "response \<Rightarrow> int list" where
  "listed_ids r = (case r of (_, JsonRows xs) \<Rightarrow> map id_col xs | _ \<Rightarrow> [])"

subsection \<open>What one request does to the table\<close>

text \<open>
  Three predicates used in the proofs: a request leaves the table alone, appends one row
  under a fresh id and answers 201, or deletes by id.
\<close>

definition inserted :: "env \<Rightarrow> response \<Rightarrow> database \<Rightarrow> database \<Rightarrow> bool" where
  "inserted e r d d' =
     (\<exists>m rc k. r = (201, JsonCreated m rc) \<and> id_col rc = number_of_int k
        \<and> createdAt rc = iso_now e
        \<and> d' = \<lparr>rows = rows d @ [rc\<lparr>id_col := k, createdAt := current_timestamp e\<rparr>], seq = k\<rparr>
        \<and> 0 < k \<and> seq d < k \<and> (\<forall>x \<in> set (rows d). id_col x < k))"

definition untouched :: "response \<Rightarrow> database \<Rightarrow> database \<Rightarrow> bool" where
  "untouched r d d' = (d' = d \<and> fst r \<noteq> 201 \<and> created_id r = None)"

definition deleted :: "deps \<Rightarrow> response \<Rightarrow> database \<Rightarrow> database \<Rightarrow> bool" where
  "deleted c r d d' =
     (\<exists>p. db_delete (rowid_of_text c) p None d = Inr d' \<and> fst r \<noteq> 201 \<and> created_id r = None)"

text \<open>An id that was assigned and whose row is gone.\<close>

definition retired :: "int \<Rightarrow> database \<Rightarrow> bool" where
  "retired i d = (i \<le> seq d \<and> i \<notin> id_col ` set (rows d))"

subsection \<open>Example inputs\<close>

definition deps0 :: deps where
  "deps0 = \<lparr>public_base = ''https://store.example/storage/v1/object/public'',
            rowid_of_text = (\<lambda>s. if s = ''1'' then Some 1 else if s = ''2'' then Some 2 else None),
            buildFolder = None\<rparr>"

definition deps_built :: deps where
  "deps_built = deps0\<lparr>buildFolder := Some ''/srv/frontend/dist''\<rparr>"

definition world0 :: world where
  "world0 = \<lparr>db = \<lparr>rows = [], seq = 0\<rparr>, objects = Map.empty, calls = []\<rparr>"

definition env1 :: env where
  "env1 = \<lparr>date_now = 1704110405123, upload_error = None,
           current_timestamp = ''2024-01-01 12:00:05'',
           iso_now = ''2024-01-01T12:00:05.140Z'', remove_error = None,
           get_error = None, all_error = None, run_error = None\<rparr>"

definition env2 :: env where
  "env2 = \<lparr>date_now = 1704110413500, upload_error = None,
           current_timestamp = ''2024-01-01 12:00:13'',
           iso_now = ''2024-01-01T12:00:13.520Z'', remove_error = None,
           get_error = None, all_error = None, run_error = None\<rparr>"

text \<open>A request served after the host clock was set back by ten seconds.\<close>

definition env_back :: env where
  "env_back = \<lparr>date_now = 1704110403500, upload_error = None,
               current_timestamp = ''2024-01-01 12:00:03'',
               iso_now = ''2024-01-01T12:00:03.520Z'', remove_error = None,
               get_error = None, all_error = None, run_error = None\<rparr>"

text \<open>A request during which the storage provider refuses every call.\<close>

definition env_down :: env where
  "env_down = env2\<lparr>upload_error := Some ''Bucket not found'',
                    remove_error := Some ''Bucket not found''\<rparr>"

text \<open>A request during which the engine rejects every call: the database file is locked.\<close>

definition env_busy :: env where
  "env_busy = env2\<lparr>get_error := Some ''SQLITE_BUSY: database is locked'',
                    all_error := Some ''SQLITE_BUSY: database is locked'',
                    run_error := Some ''SQLITE_BUSY: database is locked''\<rparr>"

text \<open>A request during which the lookup succeeds and the engine then rejects the write.\<close>

definition env_busy_write :: env where
  "env_busy_write = env2\<lparr>run_error := Some ''SQLITE_BUSY: database is locked''\<rparr>"

definition payload1 :: bytes where
  "payload1 = [26, 69, 223, 163]"

definition post1 :: request where
  "post1 = \<lparr>http_method = POST, target = ApiRecordings, origin = None, body_refused = None,
            files = [(''recording'', payload1)], static_answer = None\<rparr>"

definition post_empty :: request where
  "post_empty = post1\<lparr>files := []\<rparr>"

definition get_page :: request where
  "get_page = \<lparr>http_method = GET, target = OtherPath, origin = None, body_refused = None,
               files = [], static_answer = None\<rparr>"

definition put_page :: request where
  "put_page = get_page\<lparr>http_method := PUT\<rparr>"

definition delete1 :: request where
  "delete1 = \<lparr>http_method = DELETE, target = ApiRecordingsId ''1'', origin = None,
              body_refused = None, files = [], static_answer = None\<rparr>"

definition row1 :: recording where
  "row1 = \<lparr>id_col = 1, filename = ''recording-1704110405123.webm'',
           url = ''https://store.example/storage/v1/object/public/uploads/recording-1704110405123.webm'',
           filesize = 4, createdAt = ''2024-01-01 12:00:05''\<rparr>"

definition row2 :: recording where
  "row2 = \<lparr>id_col = 2, filename = ''recording-1704110413500.webm'',
           url = ''https://store.example/storage/v1/object/public/uploads/recording-1704110413500.webm'',
           filesize = 4, createdAt = ''2024-01-01 12:00:13''\<rparr>"

definition row_back :: recording where
  "row_back = \<lparr>id_col = 2, filename = ''recording-1704110403500.webm'',
               url = ''https://store.example/storage/v1/object/public/uploads/recording-1704110403500.webm'',
               filesize = 4, createdAt = ''2024-01-01 12:00:03''\<rparr>"

definition world1 :: world where
  "world1 = \<lparr>db = \<lparr>rows = [row1], seq = 1\<rparr>,
             objects = [''recording-1704110405123.webm'' \<mapsto> payload1],
             calls = [Upload ''recording-1704110405123.webm'' payload1 ''video/webm'']\<rparr>"

text \<open>
  A table whose counter has passed \<open>2 ^ 53 = 9007199254740992\<close>, and the table two uploads
  leave of it.
\<close>

definition world_high :: world where
  "world_high = \<lparr>db = \<lparr>rows = [], seq = 9007199254740994\<rparr>, objects = Map.empty, calls = []\<rparr>"

definition row_a :: recording where
  "row_a = \<lparr>id_col = 9007199254740995, filename = ''recording-1704110405123.webm'',
            url = ''https://store.example/storage/v1/object/public/uploads/recording-1704110405123.webm'',
            filesize = 4, createdAt = ''2024-01-01 12:00:05''\<rparr>"

definition row_b :: recording where
  "row_b = \<lparr>id_col = 9007199254740996, filename = ''recording-1704110413500.webm'',
            url = ''https://store.example/storage/v1/object/public/uploads/recording-1704110413500.webm'',
            filesize = 4, createdAt = ''2024-01-01 12:00:13''\<rparr>"

definition world_two_high :: world where
  "world_two_high =
     \<lparr>db = \<lparr>rows = [row_a, row_b], seq = 9007199254740996\<rparr>,
      objects = [''recording-1704110405123.webm'' \<mapsto> payload1,
                 ''recording-1704110413500.webm'' \<mapsto> payload1],
      calls = [Upload ''recording-1704110405123.webm'' payload1 ''video/webm'',
               Upload ''recording-1704110413500.webm'' payload1 ''video/webm'']\<rparr>"

definition deps_high :: deps where
  "deps_high =
     deps0\<lparr>rowid_of_text :=
             (\<lambda>s. if s = ''9007199254740996'' then Some 9007199254740996 else None)\<rparr>"

section \<open>Facts about the embedding\<close>

subsection \<open>Object names and addresses\<close>

declare string_of_nat.simps [simp del]

lemma digit_char_not_slash: "digit_char n \<noteq> CHR ''/''"
proof -
  have "n mod 10 < length ''0123456789''" by simp
  then have "digit_char n \<in> set ''0123456789''"
    unfolding digit_char_def by (rule nth_mem)
  then show ?thesis by auto
qed

lemma string_of_nat_no_slash: "CHR ''/'' \<notin> set (string_of_nat n)"
proof (induction n rule: string_of_nat.induct)
  case (1 n)
  show ?case
  proof (cases "n < 10")
    case True
    then show ?thesis
      using digit_char_not_slash [of n] by (simp add: string_of_nat.simps [of n])
  next
    case False
    with 1 show ?thesis
      using digit_char_not_slash [of n] by (simp add: string_of_nat.simps [of n])
  qed
qed

lemma number_to_string_no_slash: "CHR ''/'' \<notin> set (number_to_string i)"
  by (simp add: number_to_string_def string_of_nat_no_slash)

lemma uniqueName_no_slash: "CHR ''/'' \<notin> set (uniqueName e)"
  using number_to_string_no_slash [of "date_now e"] by (simp add: uniqueName_def)

lemma split_from_not_Nil: "split_from c piece s \<noteq> []"
  by (induction s arbitrary: piece) auto

lemma split_from_no_sep: "c \<notin> set s \<Longrightarrow> split_from c piece s = [rev piece @ s]"
  by (induction s arbitrary: piece) auto

lemma last_split_from:
  "c \<notin> set n \<Longrightarrow> last (split_from c piece (p @ c # n)) = n"
  by (induction p arbitrary: piece) (auto simp: split_from_no_sep split_from_not_Nil)

lemma pop_split_on:
  "c \<notin> set n \<Longrightarrow> pop (split_on c (p @ c # n)) = n"
  by (simp add: pop_def split_on_def last_split_from)

lemma pop_getPublicUrl:
  "CHR ''/'' \<notin> set n \<Longrightarrow> pop (split_on CHR ''/'' (getPublicUrl b n)) = n"
proof -
  assume n: "CHR ''/'' \<notin> set n"
  have eq: "getPublicUrl b n = (b @ ''/uploads'') @ CHR ''/'' # n"
    by (simp add: getPublicUrl_def)
  show ?thesis unfolding eq by (rule pop_split_on [OF n])
qed

subsection \<open>The id an insert assigns\<close>

lemma fold_max_ge: "(a::int) \<le> fold max xs a"
  by (induction xs arbitrary: a) (auto intro: order_trans [OF max.cobounded2])

lemma fold_max_mem: "(x::int) \<in> set xs \<Longrightarrow> x \<le> fold max xs a"
proof (induction xs arbitrary: a)
  case Nil
  then show ?case by simp
next
  case (Cons y ys)
  show ?case
  proof (cases "x = y")
    case True
    have "max y a \<le> fold max ys (max y a)" by (rule fold_max_ge)
    with True show ?thesis by simp
  next
    case False
    with Cons show ?thesis by simp
  qed
qed

lemma max_rowid_ge: "r \<in> set rs \<Longrightarrow> id_col r \<le> max_rowid rs"
  by (simp add: max_rowid_def fold_max_mem)

lemma max_rowid_nonneg: "0 \<le> max_rowid rs"
  unfolding max_rowid_def by (rule fold_max_ge)

lemma number_of_int_exact: "\<bar>n\<bar> \<le> 2 ^ 53 \<Longrightarrow> number_of_int n = n"
  by (simp add: number_of_int_def)

lemma db_insert_Inr:
  assumes "db_insert rejected now fname u sz d = Inr (n, d')"
  shows "\<exists>k. n = number_of_int k
           \<and> d' = \<lparr>rows = rows d @ [\<lparr>id_col = k, filename = fname, url = u, filesize = sz,
                                    createdAt = now\<rparr>], seq = k\<rparr>
           \<and> 0 < k \<and> seq d < k \<and> (\<forall>r \<in> set (rows d). id_col r < k)"
proof -
  let ?k = "max (max_rowid (rows d) + 1) (seq d + 1)"
  from assms have n: "n = number_of_int ?k"
    and d': "d' = \<lparr>rows = rows d @ [\<lparr>id_col = ?k, filename = fname, url = u, filesize = sz,
                                 createdAt = now\<rparr>], seq = ?k\<rparr>"
    by (auto simp: db_insert_def Let_def split: if_splits option.splits)
  have pos: "0 < ?k" using max_rowid_nonneg [of "rows d"] by simp
  have sq: "seq d < ?k" by simp
  have "\<forall>r \<in> set (rows d). id_col r < ?k"
  proof
    fix r assume "r \<in> set (rows d)"
    then have "id_col r \<le> max_rowid (rows d)" by (rule max_rowid_ge)
    then show "id_col r < ?k" by simp
  qed
  with n d' pos sq show ?thesis by blast
qed

subsection \<open>The upload middleware\<close>

lemma single_one: "single f [(f, b)] = Inr (Some \<lparr>buffer = b, size_f = length b\<rparr>)"
  by (simp add: single_def)

lemma single_Nil: "single f [] = Inr None"
  by (simp add: single_def)

lemma single_Some:
  assumes "single field parts = Inr (Some f)"
  shows "\<exists>b. parts = [(field, b)] \<and> f = \<lparr>buffer = b, size_f = length b\<rparr>"
proof (cases parts)
  case Nil
  with assms show ?thesis by (simp add: single_def)
next
  case (Cons part rest)
  show ?thesis
  proof (cases rest)
    case Nil
    with Cons assms show ?thesis
      by (cases part) (auto simp: single_def split: if_splits)
  next
    case (Cons part' rest')
    with \<open>parts = part # rest\<close> assms show ?thesis
      by (auto simp: single_def split: if_splits)
  qed
qed

subsection \<open>A successful upload\<close>

lemma post_recordings_201:
  assumes "post_recordings c e upl w = ((201, b), w')"
  shows "\<exists>f k. upl = Some f \<and> upload_error e = None
     \<and> b = JsonCreated ''Recording uploaded successfully''
             \<lparr>id_col = number_of_int k, filename = uniqueName e,
              url = getPublicUrl (public_base c) (uniqueName e),
              filesize = size_f f, createdAt = iso_now e\<rparr>
     \<and> db w' = \<lparr>rows = rows (db w) @
                   [\<lparr>id_col = k, filename = uniqueName e,
                     url = getPublicUrl (public_base c) (uniqueName e),
                     filesize = size_f f, createdAt = current_timestamp e\<rparr>], seq = k\<rparr>
     \<and> 0 < k \<and> seq (db w) < k \<and> (\<forall>x \<in> set (rows (db w)). id_col x < k)
     \<and> objects w' = (objects w)(uniqueName e \<mapsto> buffer f)
     \<and> calls w' = calls w @ [Upload (uniqueName e) (buffer f) ''video/webm'']"
proof (cases upl)
  case None
  with assms show ?thesis by (simp add: post_recordings_def)
next
  case (Some f)
  show ?thesis
  proof (cases "upload_error e")
    case (Some err)
    with \<open>upl = Some f\<close> assms show ?thesis
      by (simp add: post_recordings_def Let_def)
  next
    case None
    let ?u = "getPublicUrl (public_base c) (uniqueName e)"
    show ?thesis
    proof (cases "db_insert (run_error e) (current_timestamp e) (uniqueName e) ?u (size_f f) (db w)")
      case (Inl err)
      with None \<open>upl = Some f\<close> assms show ?thesis
        by (simp add: post_recordings_def storage_upload_def Let_def)
    next
      case (Inr nd)
      obtain n d' where nd: "nd = (n, d')" by (cases nd)
      from db_insert_Inr [OF Inr [unfolded nd]] obtain k
        where k: "n = number_of_int k"
          "d' = \<lparr>rows = rows (db w) @ [\<lparr>id_col = k, filename = uniqueName e, url = ?u,
                    filesize = size_f f, createdAt = current_timestamp e\<rparr>], seq = k\<rparr>"
          "0 < k" "seq (db w) < k" "\<forall>r \<in> set (rows (db w)). id_col r < k"
        by blast
      from None \<open>upl = Some f\<close> assms Inr nd
      have "b = JsonCreated ''Recording uploaded successfully''
             \<lparr>id_col = n, filename = uniqueName e, url = ?u,
              filesize = size_f f, createdAt = iso_now e\<rparr>"
        and "db w' = d'"
        and "objects w' = (objects w)(uniqueName e \<mapsto> buffer f)"
        and "calls w' = calls w @ [Upload (uniqueName e) (buffer f) ''video/webm'']"
        by (auto simp: post_recordings_def storage_upload_def Let_def)
      with k None \<open>upl = Some f\<close> show ?thesis by blast
    qed
  qed
qed

lemma post_recordings_not_201:
  assumes "post_recordings c e upl w = (r, w')" and "fst r \<noteq> 201"
  shows "db w' = db w \<and> created_id r = None"
  using assms
  by (auto simp: post_recordings_def storage_upload_def created_id_def Let_def
      split: option.splits sum.splits)

lemma post_route_201:
  assumes "post_route c e q w = ((201, b), w')"
  shows "\<exists>payload k. files q = [(''recording'', payload)] \<and> upload_error e = None
     \<and> b = JsonCreated ''Recording uploaded successfully''
             \<lparr>id_col = number_of_int k, filename = uniqueName e,
              url = getPublicUrl (public_base c) (uniqueName e),
              filesize = length payload, createdAt = iso_now e\<rparr>
     \<and> db w' = \<lparr>rows = rows (db w) @
                   [\<lparr>id_col = k, filename = uniqueName e,
                     url = getPublicUrl (public_base c) (uniqueName e),
                     filesize = length payload, createdAt = current_timestamp e\<rparr>], seq = k\<rparr>
     \<and> 0 < k \<and> seq (db w) < k \<and> (\<forall>x \<in> set (rows (db w)). id_col x < k)
     \<and> objects w' = (objects w)(uniqueName e \<mapsto> payload)
     \<and> calls w' = calls w @ [Upload (uniqueName e) payload ''video/webm'']"
proof (cases "single ''recording'' (files q)")
  case (Inl err)
  with assms show ?thesis by (simp add: post_route_def)
next
  case (Inr upl)
  with assms have "post_recordings c e upl w = ((201, b), w')"
    by (simp add: post_route_def)
  from post_recordings_201 [OF this] obtain f k where f: "upl = Some f"
    and rest: "upload_error e = None"
      "b = JsonCreated ''Recording uploaded successfully''
             \<lparr>id_col = number_of_int k, filename = uniqueName e,
              url = getPublicUrl (public_base c) (uniqueName e),
              filesize = size_f f, createdAt = iso_now e\<rparr>"
      "db w' = \<lparr>rows = rows (db w) @
                   [\<lparr>id_col = k, filename = uniqueName e,
                     url = getPublicUrl (public_base c) (uniqueName e),
                     filesize = size_f f, createdAt = current_timestamp e\<rparr>], seq = k\<rparr>"
      "0 < k" "seq (db w) < k" "\<forall>x \<in> set (rows (db w)). id_col x < k"
      "objects w' = (objects w)(uniqueName e \<mapsto> buffer f)"
      "calls w' = calls w @ [Upload (uniqueName e) (buffer f) ''video/webm'']"
    by blast
  from single_Some [OF Inr [unfolded f]] obtain payload
    where "files q = [(''recording'', payload)]" "f = \<lparr>buffer = payload, size_f = length payload\<rparr>"
    by blast
  with rest show ?thesis by simp
qed

subsection \<open>The effect of a request, and of a run\<close>

lemma post_recordings_effect:
  assumes "post_recordings c e upl w = (r, w')"
  shows "untouched r (db w) (db w') \<or> inserted e r (db w) (db w')"
proof (cases "fst r = 201")
  case False
  with post_recordings_not_201 [OF assms] show ?thesis by (simp add: untouched_def)
next
  case True
  then obtain b where r: "r = (201, b)" by (cases r) auto
  from post_recordings_201 [OF assms [unfolded r]] r
  have "inserted e r (db w) (db w')"
    unfolding inserted_def by auto
  then show ?thesis ..
qed

lemma delete_recording_effect:
  assumes "delete_recording c e p w = (r, w')"
  shows "untouched r (db w) (db w') \<or> deleted c r (db w) (db w')"
  using assms
  by (auto simp: delete_recording_def untouched_def deleted_def created_id_def
      storage_remove_def db_delete_def Let_def split: option.splits sum.splits)

lemma app_effect:
  assumes "app c e q w = (r, w')"
  shows "untouched r (db w) (db w') \<or> inserted e r (db w) (db w') \<or> deleted c r (db w) (db w')"
proof -
  consider (pass) op where "origin_allowed (origin q)" "http_method q \<noteq> OPTIONS"
      "body_refused q = None" "api_route q = Some op"
    | (front) "origin_allowed (origin q)" "http_method q \<noteq> OPTIONS" "body_refused q = None"
      "api_route q = None"
    | (stop) "\<not> origin_allowed (origin q) \<or> http_method q = OPTIONS \<or> body_refused q \<noteq> None"
    by (cases "api_route q") auto
  then show ?thesis
  proof cases
    case stop
    with assms show ?thesis
      by (auto simp: app_def untouched_def created_id_def refusal_status_def
          split: if_splits option.splits body_refusal.splits)
  next
    case front
    with assms show ?thesis
      by (auto simp: app_def untouched_def created_id_def frontend_or_404_def
          static_reply_def split: option.splits static_hit.splits if_splits)
  next
    case pass
    show ?thesis
    proof (cases op)
      case CreateOp
      show ?thesis
      proof (cases "single ''recording'' (files q)")
        case (Inl err)
        with pass CreateOp assms show ?thesis
          by (auto simp: app_def post_route_def untouched_def created_id_def)
      next
        case (Inr upl)
        with pass CreateOp assms have "post_recordings c e upl w = (r, w')"
          by (simp add: app_def post_route_def)
        from post_recordings_effect [OF this] show ?thesis by blast
      qed
    next
      case ListOp
      with pass assms show ?thesis
        by (auto simp: app_def get_recordings_def untouched_def created_id_def
            split: sum.splits)
    next
      case (GetOp p)
      with pass assms show ?thesis
        by (auto simp: app_def get_recording_def untouched_def created_id_def
            split: option.splits sum.splits)
    next
      case (DeleteOp p)
      with pass assms have "delete_recording c e p w = (r, w')"
        by (simp add: app_def)
      from delete_recording_effect [OF this] show ?thesis by blast
    qed
  qed
qed

lemma run_Cons:
  "run c w (eq # eqs) =
     (fst (app c (fst eq) (snd eq) w) # fst (run c (snd (app c (fst eq) (snd eq) w)) eqs),
      snd (run c (snd (app c (fst eq) (snd eq) w)) eqs))"
  by (simp add: Let_def split: prod.splits)

lemma effect_seq_mono:
  assumes "untouched r d d' \<or> inserted e r d d' \<or> deleted c r d d'"
  shows "seq d \<le> seq d'"
  using assms by (auto simp: untouched_def inserted_def deleted_def db_delete_def)

lemma effect_created:
  assumes "untouched r d d' \<or> inserted e r d d' \<or> deleted c r d d'"
    and "created_id r = Some n"
  shows "\<exists>k. n = number_of_int k \<and> 0 < k \<and> seq d < k \<and> seq d' = k"
  using assms by (auto simp: untouched_def inserted_def deleted_def created_id_def)

lemma run_seq_mono: "seq (db w) \<le> seq (db (snd (run c w qs)))"
proof (induction qs arbitrary: w)
  case Nil
  show ?case by simp
next
  case (Cons eq qs)
  obtain r w1 where step: "app c (fst eq) (snd eq) w = (r, w1)"
    by (cases "app c (fst eq) (snd eq) w") auto
  from effect_seq_mono [OF app_effect [OF step]] Cons.IH [of w1] show ?case
    by (simp add: run_Cons step del: run.simps(2))
qed

text \<open>
  The ids that the successful creates of a run return, in the order of the requests,
  while the counter has not passed \<open>2 ^ 53\<close>.
\<close>

lemma run_created_ids:
  assumes "seq (db (snd (run c w qs))) \<le> 2 ^ 53"
  shows "sorted_wrt (<) (List.map_filter created_id (fst (run c w qs)))
   \<and> (\<forall>k \<in> set (List.map_filter created_id (fst (run c w qs))).
         seq (db w) < k \<and> k \<le> seq (db (snd (run c w qs))))"
  using assms
proof (induction qs arbitrary: w)
  case Nil
  show ?case by (simp add: List.map_filter_simps)
next
  case (Cons eq qs)
  obtain r w1 where step: "app c (fst eq) (snd eq) w = (r, w1)"
    by (cases "app c (fst eq) (snd eq) w") auto
  note eff = app_effect [OF step]
  have w2: "snd (run c w (eq # qs)) = snd (run c w1 qs)"
    by (simp add: run_Cons step del: run.simps(2))
  from Cons.prems have bound: "seq (db (snd (run c w1 qs))) \<le> 2 ^ 53" by (simp only: w2)
  note IH = Cons.IH [OF bound]
  have mono: "seq (db w) \<le> seq (db w1)" by (rule effect_seq_mono [OF eff])
  have mono1: "seq (db w1) \<le> seq (db (snd (run c w1 qs)))" by (rule run_seq_mono)
  let ?rest = "List.map_filter created_id (fst (run c w1 qs))"
  show ?case
  proof (cases "created_id r")
    case None
    then have "List.map_filter created_id (fst (run c w (eq # qs))) = ?rest"
      by (simp add: run_Cons step List.map_filter_simps del: run.simps(2))
    then show ?thesis unfolding w2 using IH mono by auto
  next
    case (Some n)
    then have ids: "List.map_filter created_id (fst (run c w (eq # qs))) = n # ?rest"
      by (simp add: run_Cons step List.map_filter_simps del: run.simps(2))
    from effect_created [OF eff Some] obtain k
      where k: "n = number_of_int k" "0 < k" "seq (db w) < k" "seq (db w1) = k" by blast
    from k(2,4) mono1 bound have "\<bar>k\<bar> \<le> 2 ^ 53" by simp
    then have "n = k" using k(1) by (simp add: number_of_int_exact)
    with k have n: "seq (db w) < n" "seq (db w1) = n" by simp_all
    show ?thesis unfolding ids w2 using IH n mono1 by auto
  qed
qed

lemma wf_db_effect:
  assumes "untouched r d d' \<or> inserted e r d d' \<or> deleted c r d d'" and "wf_db d"
  shows "wf_db d'"
  using assms(1)
proof (elim disjE)
  assume "untouched r d d'"
  with assms(2) show ?thesis by (simp add: untouched_def)
next
  assume "inserted e r d d'"
  then obtain rc k
    where d': "d' = \<lparr>rows = rows d @ [rc\<lparr>id_col := k, createdAt := current_timestamp e\<rparr>],
                     seq = k\<rparr>"
      and new: "\<forall>x \<in> set (rows d). id_col x < k" and pos: "0 < k"
    by (auto simp: inserted_def)
  from new have "k \<notin> id_col ` set (rows d)" by auto
  moreover from new have "\<forall>x \<in> set (rows d). id_col x \<le> k" by auto
  ultimately show ?thesis
    using assms(2) pos by (auto simp: d' wf_db_def list_all_iff)
next
  assume "deleted c r d d'"
  with assms(2) show ?thesis
    by (auto simp: deleted_def db_delete_def wf_db_def list_all_iff distinct_map_filter)
qed

lemma wf_db_run: "wf_db (db w) \<Longrightarrow> wf_db (db (snd (run c w qs)))"
proof (induction qs arbitrary: w)
  case Nil
  then show ?case by simp
next
  case (Cons eq qs)
  obtain r w1 where step: "app c (fst eq) (snd eq) w = (r, w1)"
    by (cases "app c (fst eq) (snd eq) w") auto
  from wf_db_effect [OF app_effect [OF step] Cons.prems] have "wf_db (db w1)" .
  from Cons.IH [OF this] show ?case
    by (simp add: run_Cons step del: run.simps(2))
qed

lemma retired_effect:
  assumes "untouched r d d' \<or> inserted e r d d' \<or> deleted c r d d'" and "retired i d"
  shows "retired i d'"
  using assms
  by (auto simp: untouched_def inserted_def deleted_def db_delete_def retired_def)

lemma retired_run: "retired i (db w) \<Longrightarrow> retired i (db (snd (run c w qs)))"
proof (induction qs arbitrary: w)
  case Nil
  then show ?case by simp
next
  case (Cons eq qs)
  obtain r w1 where step: "app c (fst eq) (snd eq) w = (r, w1)"
    by (cases "app c (fst eq) (snd eq) w") auto
  from retired_effect [OF app_effect [OF step] Cons.prems] have "retired i (db w1)" .
  from Cons.IH [OF this] show ?case
    by (simp add: run_Cons step del: run.simps(2))
qed

subsection \<open>Lookups\<close>

lemma db_get_None_iff:
  "db_get conv p None d = Inr None \<longleftrightarrow> (\<forall>r \<in> set (rows d). conv p \<noteq> Some (id_col r))"
  by (auto simp: db_get_def find_None_iff)

lemma db_get_retired:
  "retired i d \<Longrightarrow> conv p = Some i \<Longrightarrow> db_get conv p None d = Inr None"
  by (auto simp: db_get_None_iff retired_def)

lemma db_get_present:
  assumes "conv p = Some i" and "i \<in> id_col ` set (rows d)"
  shows "\<exists>row \<in> set (rows d). db_get conv p None d = Inr (Some (js_row row)) \<and> id_col row = i"
proof (cases "find (\<lambda>r. conv p = Some (id_col r)) (rows d)")
  case None
  with assms show ?thesis by (auto simp: find_None_iff)
next
  case (Some row)
  then have "row \<in> set (rows d)" "conv p = Some (id_col row)"
    by (auto simp: find_Some_iff)
  with Some assms(1) show ?thesis by (auto simp: db_get_def)
qed

lemma filter_remove_key:
  assumes "distinct (map f zs)" and "i \<in> f ` set zs"
  shows "\<exists>xs z ys. zs = xs @ z # ys \<and> f z = i \<and> filter (\<lambda>x. i \<noteq> f x) zs = xs @ ys"
proof -
  from assms(2) obtain z where z: "z \<in> set zs" "f z = i" by auto
  then obtain xs ys where zs: "zs = xs @ z # ys" by (auto dest: split_list)
  from assms(1) have "f z \<notin> f ` set xs" "f z \<notin> f ` set ys"
    unfolding zs by auto
  with z(2) have "\<forall>x \<in> set xs. i \<noteq> f x" "\<forall>y \<in> set ys. i \<noteq> f y"
    by (auto simp: image_iff)
  then have "filter (\<lambda>x. i \<noteq> f x) zs = xs @ ys"
    using z zs by simp
  with zs z show ?thesis by blast
qed


subsection \<open>The listing\<close>

lemma sorted_order_by:
  "sorted_wrt (\<lambda>a b. createdAt b \<le> createdAt a) (order_by_createdAt_desc rs)"
proof -
  have "sorted (map createdAt (sort_key createdAt (rev rs)))" by (rule sorted_sort_key)
  then have "sorted_wrt (\<lambda>a b. createdAt a \<le> createdAt b) (sort_key createdAt (rev rs))"
    by (simp add: sorted_wrt_map)
  then show ?thesis by (simp add: order_by_createdAt_desc_def sorted_wrt_rev)
qed

lemma mset_order_by: "mset (order_by_createdAt_desc rs) = mset rs"
  by (simp add: order_by_createdAt_desc_def)

lemma set_order_by: "set (order_by_createdAt_desc rs) = set rs"
  by (simp add: order_by_createdAt_desc_def)

lemma filter_same_key:
  assumes "distinct (map f xs)" and "k \<in> set xs"
  shows "filter (\<lambda>x. f k = f x) xs = [k]"
  using assms
proof (induction xs)
  case Nil
  then show ?case by simp
next
  case (Cons y ys)
  show ?case
  proof (cases "k = y")
    case True
    from Cons.prems(1) have "\<forall>x \<in> set ys. f y \<noteq> f x" by auto
    then have "filter (\<lambda>x. f y = f x) ys = []" by (simp add: filter_empty_conv)
    with True show ?thesis by simp
  next
    case False
    with Cons.prems have k: "k \<in> set ys" and d: "distinct (map f ys)" by auto
    from Cons.prems(1) have "f y \<notin> f ` set ys" by simp
    with k have "f k \<noteq> f y" by (metis imageI)
    with Cons.IH [OF d k] show ?thesis by simp
  qed
qed

lemma order_by_increasing:
  assumes "sorted_wrt (<) (map createdAt rs)"
  shows "order_by_createdAt_desc rs = rev rs"
proof -
  from assms have s: "sorted (map createdAt rs)" and d: "distinct (map createdAt rs)"
    by (simp_all add: strict_sorted_iff)
  have "sort_key createdAt (rev rs) = rs"
  proof (rule properties_for_sort_key)
    show "mset rs = mset (rev rs)" by simp
    show "sorted (map createdAt rs)" by (rule s)
    fix k assume k: "k \<in> set rs"
    have "filter (\<lambda>x. createdAt k = createdAt x) (rev rs)
            = rev (filter (\<lambda>x. createdAt k = createdAt x) rs)"
      by (simp add: rev_filter)
    with filter_same_key [OF d k]
    show "filter (\<lambda>x. createdAt k = createdAt x) rs
            = filter (\<lambda>x. createdAt k = createdAt x) (rev rs)" by simp
  qed
  then show ?thesis by (simp add: order_by_createdAt_desc_def)
qed

lemma run_all_created:
  assumes "\<forall>r \<in> set (fst (run c w qs)). fst r = 201"
  shows "map createdAt (rows (db (snd (run c w qs))))
           = map createdAt (rows (db w)) @ map (\<lambda>eq. current_timestamp (fst eq)) qs
       \<and> map (\<lambda>x. number_of_int (id_col x)) (rows (db (snd (run c w qs))))
           = map (\<lambda>x. number_of_int (id_col x)) (rows (db w))
               @ List.map_filter created_id (fst (run c w qs))"
  using assms
proof (induction qs arbitrary: w)
  case Nil
  show ?case by (simp add: List.map_filter_simps)
next
  case (Cons eq qs)
  obtain r w1 where step: "app c (fst eq) (snd eq) w = (r, w1)"
    by (cases "app c (fst eq) (snd eq) w") auto
  from Cons.prems have r: "fst r = 201" and rest: "\<forall>r \<in> set (fst (run c w1 qs)). fst r = 201"
    by (simp_all add: run_Cons step del: run.simps(2))
  from app_effect [OF step] r have "inserted (fst eq) r (db w) (db w1)"
    by (auto simp: untouched_def deleted_def)
  then obtain m rc k where r': "r = (201, JsonCreated m rc)"
    and k: "id_col rc = number_of_int k"
    and d1: "db w1 = \<lparr>rows = rows (db w)
                        @ [rc\<lparr>id_col := k, createdAt := current_timestamp (fst eq)\<rparr>],
                      seq = k\<rparr>"
    by (auto simp: inserted_def)
  from r' k have cid: "created_id r = Some (number_of_int k)" by (simp add: created_id_def)
  from Cons.IH [OF rest] d1 cid show ?case
    by (simp add: run_Cons step List.map_filter_simps del: run.simps(2))
qed

subsection \<open>The example inputs, evaluated\<close>

lemma uniqueName_env1: "uniqueName env1 = ''recording-1704110405123.webm''"
  by code_simp

lemma uniqueName_env2: "uniqueName env2 = ''recording-1704110413500.webm''"
  by code_simp

lemma uniqueName_env_back: "uniqueName env_back = ''recording-1704110403500.webm''"
  by code_simp

lemma number_of_int_995: "number_of_int 9007199254740995 = 9007199254740996"
  by code_simp

lemma number_of_int_996: "number_of_int 9007199254740996 = 9007199254740996"
  by code_simp

lemma app_post1: "app c e post1 w = post_route c e post1 w"
  by (simp add: app_def api_route_def origin_allowed_def post1_def)

lemma app_delete1: "app c e delete1 w = delete_recording c e ''1'' w"
  by (simp add: app_def api_route_def origin_allowed_def delete1_def is_get_def)

text \<open>An upload that nothing refuses, on a table with room.\<close>

lemma post_route_db:
  assumes "upload_error e = None" and "run_error e = None"
    and "seq (db w) < MAX_ROWID" and "max_rowid (rows (db w)) < MAX_ROWID"
  shows "post_route c e post1 w =
     ((201, JsonCreated ''Recording uploaded successfully''
         \<lparr>id_col = number_of_int (max (max_rowid (rows (db w)) + 1) (seq (db w) + 1)),
          filename = uniqueName e, url = getPublicUrl (public_base c) (uniqueName e),
          filesize = 4, createdAt = iso_now e\<rparr>),
      (storage_upload (uniqueName e) payload1 ''video/webm'' None w)
        \<lparr>db := \<lparr>rows = rows (db w) @
            [\<lparr>id_col = max (max_rowid (rows (db w)) + 1) (seq (db w) + 1),
              filename = uniqueName e, url = getPublicUrl (public_base c) (uniqueName e),
              filesize = 4, createdAt = current_timestamp e\<rparr>],
           seq = max (max_rowid (rows (db w)) + 1) (seq (db w) + 1)\<rparr>\<rparr>)"
  using assms
  by (simp add: post_route_def post_recordings_def single_def post1_def db_insert_def Let_def
      payload1_def storage_upload_def)

text \<open>\<open>world1\<close> is what the first upload leaves of the empty \<open>world0\<close>.\<close>

lemma world1_run:
  "post_route deps0 env1 post1 world0 =
     ((201, JsonCreated ''Recording uploaded successfully''
              (row1\<lparr>createdAt := ''2024-01-01T12:00:05.140Z''\<rparr>)), world1)"
proof -
  have a: "upload_error env1 = None" "run_error env1 = None" by (simp_all add: env1_def)
  have b: "seq (db world0) < MAX_ROWID" "max_rowid (rows (db world0)) < MAX_ROWID"
    by (simp_all add: world0_def MAX_ROWID_def max_rowid_def)
  have c: "iso_now env1 = ''2024-01-01T12:00:05.140Z''"
    "current_timestamp env1 = ''2024-01-01 12:00:05''" by (simp_all add: env1_def)
  show ?thesis
    unfolding post_route_db [OF a b, of deps0]
    by (simp add: c uniqueName_env1 world0_def world1_def row1_def max_rowid_def
        number_of_int_def getPublicUrl_def deps0_def storage_upload_def payload1_def)
qed

lemma second_upload:
  "fst (post_route deps0 env2 post1 world1)
     = (201, JsonCreated ''Recording uploaded successfully''
               (row2\<lparr>createdAt := ''2024-01-01T12:00:13.520Z''\<rparr>))
   \<and> db (snd (post_route deps0 env2 post1 world1)) = \<lparr>rows = [row1, row2], seq = 2\<rparr>"
proof -
  have a: "upload_error env2 = None" "run_error env2 = None" by (simp_all add: env2_def)
  have b: "seq (db world1) < MAX_ROWID" "max_rowid (rows (db world1)) < MAX_ROWID"
    by (simp_all add: world1_def MAX_ROWID_def max_rowid_def row1_def)
  have c: "iso_now env2 = ''2024-01-01T12:00:13.520Z''"
    "current_timestamp env2 = ''2024-01-01 12:00:13''" by (simp_all add: env2_def)
  show ?thesis
    unfolding post_route_db [OF a b, of deps0]
    by (simp add: c uniqueName_env2 world1_def row1_def row2_def max_rowid_def
        number_of_int_def getPublicUrl_def deps0_def storage_upload_def)
qed

lemma second_upload_back:
  "fst (post_route deps0 env_back post1 world1)
     = (201, JsonCreated ''Recording uploaded successfully''
               (row_back\<lparr>createdAt := ''2024-01-01T12:00:03.520Z''\<rparr>))
   \<and> db (snd (post_route deps0 env_back post1 world1)) = \<lparr>rows = [row1, row_back], seq = 2\<rparr>"
proof -
  have a: "upload_error env_back = None" "run_error env_back = None"
    by (simp_all add: env_back_def)
  have b: "seq (db world1) < MAX_ROWID" "max_rowid (rows (db world1)) < MAX_ROWID"
    by (simp_all add: world1_def MAX_ROWID_def max_rowid_def row1_def)
  have c: "iso_now env_back = ''2024-01-01T12:00:03.520Z''"
    "current_timestamp env_back = ''2024-01-01 12:00:03''" by (simp_all add: env_back_def)
  show ?thesis
    unfolding post_route_db [OF a b, of deps0]
    by (simp add: c uniqueName_env_back world1_def row1_def row_back_def max_rowid_def
        number_of_int_def getPublicUrl_def deps0_def storage_upload_def)
qed

lemma run_two:
  "fst (run deps0 world0 [(env1, post1), (env2, post1)])
     = [(201, JsonCreated ''Recording uploaded successfully''
                (row1\<lparr>createdAt := ''2024-01-01T12:00:05.140Z''\<rparr>)),
        (201, JsonCreated ''Recording uploaded successfully''
                (row2\<lparr>createdAt := ''2024-01-01T12:00:13.520Z''\<rparr>))]
   \<and> db (snd (run deps0 world0 [(env1, post1), (env2, post1)]))
       = \<lparr>rows = [row1, row2], seq = 2\<rparr>"
  by (simp add: run_Cons app_post1 world1_run second_upload del: run.simps(2))

lemma run_two_back:
  "fst (run deps0 world0 [(env1, post1), (env_back, post1)])
     = [(201, JsonCreated ''Recording uploaded successfully''
                (row1\<lparr>createdAt := ''2024-01-01T12:00:05.140Z''\<rparr>)),
        (201, JsonCreated ''Recording uploaded successfully''
                (row_back\<lparr>createdAt := ''2024-01-01T12:00:03.520Z''\<rparr>))]
   \<and> db (snd (run deps0 world0 [(env1, post1), (env_back, post1)]))
       = \<lparr>rows = [row1, row_back], seq = 2\<rparr>"
  by (simp add: run_Cons app_post1 world1_run second_upload_back del: run.simps(2))

lemma listing_two_back:
  "db w = \<lparr>rows = [row1, row_back], seq = 2\<rparr> \<Longrightarrow>
   listed_ids (fst (get_recordings env2 w)) = [1, 2]"
  by (simp add: get_recordings_def db_all_def env2_def order_by_createdAt_desc_def
      listed_ids_def js_row_def number_of_int_def row1_def row_back_def)

lemma delete_first:
  "fst (delete_recording deps0 env2 ''1'' world1)
     = (200, JsonMessage ''Recording deleted successfully'')
   \<and> db (snd (delete_recording deps0 env2 ''1'' world1)) = \<lparr>rows = [], seq = 1\<rparr>"
  by (simp add: delete_recording_def db_get_def deps0_def world1_def row1_def env2_def
      storage_remove_def db_delete_def Let_def)

lemma third_upload:
  "fst (post_route deps0 env2 post1 (snd (delete_recording deps0 env2 ''1'' world1)))
     = (201, JsonCreated ''Recording uploaded successfully''
               (row2\<lparr>createdAt := ''2024-01-01T12:00:13.520Z''\<rparr>))"
proof -
  let ?w = "snd (delete_recording deps0 env2 ''1'' world1)"
  have d: "db ?w = \<lparr>rows = [], seq = 1\<rparr>" using delete_first by simp
  have a: "upload_error env2 = None" "run_error env2 = None" by (simp_all add: env2_def)
  have b: "seq (db ?w) < MAX_ROWID" "max_rowid (rows (db ?w)) < MAX_ROWID"
    by (simp_all add: d MAX_ROWID_def max_rowid_def)
  have "iso_now env2 = ''2024-01-01T12:00:13.520Z''" by (simp add: env2_def)
  then show ?thesis
    unfolding post_route_db [OF a b, of deps0]
    by (simp add: d max_rowid_def uniqueName_env2 getPublicUrl_def row2_def number_of_int_def)
      (simp add: deps0_def)
qed

lemma run_create_delete_create:
  "fst (run deps0 world0 [(env1, post1), (env2, delete1), (env2, post1)])
     = [(201, JsonCreated ''Recording uploaded successfully''
                (row1\<lparr>createdAt := ''2024-01-01T12:00:05.140Z''\<rparr>)),
        (200, JsonMessage ''Recording deleted successfully''),
        (201, JsonCreated ''Recording uploaded successfully''
                (row2\<lparr>createdAt := ''2024-01-01T12:00:13.520Z''\<rparr>))]"
  by (simp add: run_Cons app_post1 app_delete1 world1_run delete_first third_upload
      del: run.simps(2))

text \<open>Two uploads on the table whose counter has passed \<open>2 ^ 53\<close>.\<close>

lemma first_upload_high:
  "fst (post_route deps0 env1 post1 world_high)
     = (201, JsonCreated ''Recording uploaded successfully''
               (row_a\<lparr>id_col := 9007199254740996, createdAt := ''2024-01-01T12:00:05.140Z''\<rparr>))
   \<and> db (snd (post_route deps0 env1 post1 world_high))
       = \<lparr>rows = [row_a], seq = 9007199254740995\<rparr>"
proof -
  have a: "upload_error env1 = None" "run_error env1 = None" by (simp_all add: env1_def)
  have b: "seq (db world_high) < MAX_ROWID" "max_rowid (rows (db world_high)) < MAX_ROWID"
    by (simp_all add: world_high_def MAX_ROWID_def max_rowid_def)
  have c: "iso_now env1 = ''2024-01-01T12:00:05.140Z''"
    "current_timestamp env1 = ''2024-01-01 12:00:05''" by (simp_all add: env1_def)
  show ?thesis
    unfolding post_route_db [OF a b, of deps0]
    by (simp add: c uniqueName_env1 world_high_def row_a_def max_rowid_def
        number_of_int_995 getPublicUrl_def deps0_def storage_upload_def)
qed

lemma second_upload_high:
  assumes "db w = \<lparr>rows = [row_a], seq = 9007199254740995\<rparr>"
  shows "fst (post_route deps0 env2 post1 w)
     = (201, JsonCreated ''Recording uploaded successfully''
               (row_b\<lparr>createdAt := ''2024-01-01T12:00:13.520Z''\<rparr>))
   \<and> db (snd (post_route deps0 env2 post1 w)) = db world_two_high"
proof -
  have a: "upload_error env2 = None" "run_error env2 = None" by (simp_all add: env2_def)
  have b: "seq (db w) < MAX_ROWID" "max_rowid (rows (db w)) < MAX_ROWID"
    by (simp_all add: assms MAX_ROWID_def max_rowid_def row_a_def)
  have c: "iso_now env2 = ''2024-01-01T12:00:13.520Z''"
    "current_timestamp env2 = ''2024-01-01 12:00:13''" by (simp_all add: env2_def)
  show ?thesis
    unfolding post_route_db [OF a b, of deps0]
    by (simp add: c assms uniqueName_env2 world_two_high_def row_a_def row_b_def max_rowid_def
        number_of_int_996 getPublicUrl_def deps0_def storage_upload_def)
qed

lemma run_two_high:
  "fst (run deps0 world_high [(env1, post1), (env2, post1)])
     = [(201, JsonCreated ''Recording uploaded successfully''
               (row_a\<lparr>id_col := 9007199254740996, createdAt := ''2024-01-01T12:00:05.140Z''\<rparr>)),
        (201, JsonCreated ''Recording uploaded successfully''
               (row_b\<lparr>createdAt := ''2024-01-01T12:00:13.520Z''\<rparr>))]
   \<and> db (snd (run deps0 world_high [(env1, post1), (env2, post1)])) = db world_two_high"
  using second_upload_high [OF first_upload_high [THEN conjunct2]]
  by (simp add: run_Cons app_post1 first_upload_high del: run.simps(2))

lemma delete_high:
  "fst (delete_recording deps_high env2 ''9007199254740996'' world_two_high)
     = (200, JsonMessage ''Recording deleted successfully'')
   \<and> db (snd (delete_recording deps_high env2 ''9007199254740996'' world_two_high))
       = \<lparr>rows = [row_a], seq = 9007199254740996\<rparr>"
  by (simp add: delete_recording_def db_get_def deps_high_def deps0_def world_two_high_def
      row_a_def row_b_def env2_def storage_remove_def db_delete_def Let_def)

lemma listing_high:
  "db w = \<lparr>rows = [row_a], seq = 9007199254740996\<rparr> \<Longrightarrow>
   listed_ids (fst (get_recordings env2 w)) = [9007199254740996]"
  by (simp add: get_recordings_def db_all_def env2_def order_by_createdAt_desc_def
      listed_ids_def js_row_def number_of_int_995 row_a_def)

lemma delete_busy_write:
  "fst (delete_recording deps0 env_busy_write ''1'' world1)
     = (500, JsonError ''Failed to delete recording'')
   \<and> rows (db (snd (delete_recording deps0 env_busy_write ''1'' world1))) = [row1]"
  by (simp add: delete_recording_def db_get_def deps0_def world1_def row1_def env_busy_write_def
      env2_def storage_remove_def db_delete_def Let_def)

section \<open>The claims\<close>

text \<open>
  C1. A Create request whose upload the storage provider answers with an error is
  answered 500 with "Failed to upload recording", and the table is what it was before
  the request: no row is inserted.
\<close>

theorem create_upload_error_no_row:
  assumes "files q = [(''recording'', payload)]" and "upload_error e = Some err"
  shows "fst (post_route c e q w) = (500, JsonError ''Failed to upload recording'')
       \<and> db (snd (post_route c e q w)) = db w"
  using assms
  by (simp add: post_route_def single_one post_recordings_def storage_upload_def Let_def)

theorem create_upload_error_no_row_witness:
  "files post1 = [(''recording'', payload1)] \<and> upload_error env_down = Some ''Bucket not found''
   \<and> fst (post_route deps0 env_down post1 world1) = (500, JsonError ''Failed to upload recording'')
   \<and> rows (db (snd (post_route deps0 env_down post1 world1))) = [row1]"
proof -
  have f: "files post1 = [(''recording'', payload1)]" by (simp add: post1_def)
  have u: "upload_error env_down = Some ''Bucket not found''" by (simp add: env_down_def)
  from create_upload_error_no_row [OF f u, of deps0 world1] f u show ?thesis
    by (simp add: world1_def)
qed

text \<open>
  C2. A Delete request whose lookup finds a row, during which the storage provider
  answers the removal with an error, is answered 500 with "Failed to delete file from
  Supabase"; the table is unchanged, so the same lookup still finds the row and the
  number of rows is the same.
\<close>

theorem delete_storage_error_keeps_row:
  assumes "db_get (rowid_of_text c) p (get_error e) (db w) = Inr (Some row)"
    and "remove_error e = Some err"
  shows "fst (delete_recording c e p w) = (500, JsonError ''Failed to delete file from Supabase'')
       \<and> db (snd (delete_recording c e p w)) = db w
       \<and> db_get (rowid_of_text c) p (get_error e) (db (snd (delete_recording c e p w)))
           = Inr (Some row)
       \<and> length (rows (db (snd (delete_recording c e p w)))) = length (rows (db w))"
  using assms by (simp add: delete_recording_def storage_remove_def Let_def)

theorem delete_storage_error_keeps_row_witness:
  "db_get (rowid_of_text deps0) ''1'' (get_error env_down) (db world1) = Inr (Some row1)
   \<and> remove_error env_down = Some ''Bucket not found''
   \<and> fst (delete_recording deps0 env_down ''1'' world1)
        = (500, JsonError ''Failed to delete file from Supabase'')
   \<and> rows (db (snd (delete_recording deps0 env_down ''1'' world1))) = [row1]"
proof -
  have a: "db_get (rowid_of_text deps0) ''1'' (get_error env_down) (db world1) = Inr (Some row1)"
    by (simp add: db_get_def deps0_def world1_def row1_def env_down_def env2_def js_row_def
        number_of_int_def)
  have b: "remove_error env_down = Some ''Bucket not found''" by (simp add: env_down_def)
  from delete_storage_error_keeps_row [OF a b] a b show ?thesis
    by (simp add: world1_def)
qed

text \<open>
  C3, as amended. A Delete request for an id that has a row, when the engine carries out
  the lookup and the \<open>DELETE\<close> and the storage provider removes the object, is answered
  200, removes exactly the row with that id and leaves the other rows as they were and
  in their order. After any further requests, getting that id is answered 404 (or 500
  when the engine rejects the lookup), never with a redirect, and no listing carries the
  id as long as the counter of the table is at most \<open>2 ^ 53\<close>, the range in which a
  listing shows ids exactly. The table is one the server's statements leave (\<open>wf_db\<close>,
  which \<open>wf_db_run\<close> shows every request preserves).

  As stated the claim fails twice. With ids 9007199254740995 and 9007199254740996 in
  the table, deleting the second leaves a listing that shows the first as
  9007199254740996. And when the engine rejects the \<open>DELETE\<close> after the provider removed
  the object, the reply is 500 and the row stays.
\<close>

theorem delete_removes_exactly_that_row:
  assumes wf: "wf_db (db w)" and conv: "rowid_of_text c p = Some i"
    and present: "i \<in> id_col ` set (rows (db w))"
    and looked: "get_error e = None" and ok: "remove_error e = None"
    and wrote: "run_error e = None"
    and del: "delete_recording c e p w = (r, w')"
  shows "r = (200, JsonMessage ''Recording deleted successfully'')
     \<and> (\<exists>xs row ys. rows (db w) = xs @ row # ys \<and> id_col row = i \<and> rows (db w') = xs @ ys)
     \<and> (\<forall>qs e'.
           (seq (db (snd (run c w' qs))) \<le> 2 ^ 53 \<longrightarrow>
              i \<notin> set (listed_ids (fst (get_recordings e' (snd (run c w' qs))))))
         \<and> (\<forall>p'. rowid_of_text c p' = Some i \<longrightarrow>
               fst (get_recording c e' p' (snd (run c w' qs)))
                 = (if get_error e' = None then (404, JsonError ''Recording not found'')
                    else (500, JsonError ''Failed to stream recording''))))"
proof -
  from db_get_present [of "rowid_of_text c" p i "db w", OF conv present] obtain row
    where row: "db_get (rowid_of_text c) p None (db w) = Inr (Some (js_row row))" by blast
  from del row ok looked wrote
  have r: "r = (200, JsonMessage ''Recording deleted successfully'')"
    and rows': "rows (db w') = filter (\<lambda>x. i \<noteq> id_col x) (rows (db w))"
    and seq': "seq (db w') = seq (db w)"
    by (auto simp: delete_recording_def storage_remove_def db_delete_def conv Let_def)
  from wf have dist: "distinct (map id_col (rows (db w)))"
    and le: "\<forall>x \<in> set (rows (db w)). 0 < id_col x \<and> id_col x \<le> seq (db w)"
    by (simp_all add: wf_db_def list_all_iff)
  from filter_remove_key [OF dist present] rows'
  have one: "\<exists>xs row ys. rows (db w) = xs @ row # ys \<and> id_col row = i \<and> rows (db w') = xs @ ys"
    by simp
  from present le have "i \<le> seq (db w)" by auto
  with rows' seq' have gone: "retired i (db w')" by (auto simp: retired_def)
  from wf rows' seq' dist have wf': "wf_db (db w')"
    by (auto simp: wf_db_def list_all_iff distinct_map_filter)
  have later: "(seq (db (snd (run c w' qs))) \<le> 2 ^ 53 \<longrightarrow>
              i \<notin> set (listed_ids (fst (get_recordings e' (snd (run c w' qs))))))
         \<and> (\<forall>p'. rowid_of_text c p' = Some i \<longrightarrow>
               fst (get_recording c e' p' (snd (run c w' qs)))
                 = (if get_error e' = None then (404, JsonError ''Recording not found'')
                    else (500, JsonError ''Failed to stream recording'')))" for qs e'
  proof -
    let ?w = "snd (run c w' qs)"
    from retired_run [OF gone] have g: "retired i (db ?w)" .
    from wf_db_run [OF wf'] have wfl: "wf_db (db ?w)" .
    have "i \<notin> set (listed_ids (fst (get_recordings e' ?w)))" if b: "seq (db ?w) \<le> 2 ^ 53"
    proof -
      have exact: "number_of_int (id_col x) = id_col x" if "x \<in> set (rows (db ?w))" for x
      proof -
        from wfl that have "0 < id_col x" "id_col x \<le> seq (db ?w)"
          by (auto simp: wf_db_def list_all_iff)
        with b have "\<bar>id_col x\<bar> \<le> 2 ^ 53" by simp
        then show ?thesis by (rule number_of_int_exact)
      qed
      have "set (listed_ids (fst (get_recordings e' ?w))) \<subseteq> id_col ` set (rows (db ?w))"
        using exact
        by (auto simp: listed_ids_def get_recordings_def db_all_def js_row_def set_order_by
            split: option.splits)
      with g show ?thesis by (auto simp: retired_def)
    qed
    moreover have "fst (get_recording c e' p' ?w)
                 = (if get_error e' = None then (404, JsonError ''Recording not found'')
                    else (500, JsonError ''Failed to stream recording''))"
      if "rowid_of_text c p' = Some i" for p'
    proof (cases "get_error e'")
      case None
      with db_get_retired [of i "db ?w" "rowid_of_text c" p', OF g that] show ?thesis
        by (simp add: get_recording_def)
    next
      case (Some msg)
      then show ?thesis by (simp add: get_recording_def db_get_def)
    qed
    ultimately show ?thesis by blast
  qed
  from r one later show ?thesis by blast
qed

theorem delete_removes_exactly_that_row_witness:
  "wf_db (db world1) \<and> rowid_of_text deps0 ''1'' = Some 1
   \<and> 1 \<in> id_col ` set (rows (db world1))
   \<and> get_error env2 = None \<and> remove_error env2 = None \<and> run_error env2 = None
   \<and> fst (delete_recording deps0 env2 ''1'' world1)
        = (200, JsonMessage ''Recording deleted successfully'')
   \<and> fst (get_recording deps0 env2 ''1''
              (snd (run deps0 (snd (delete_recording deps0 env2 ''1'' world1)) [(env2, post1)])))
        = (404, JsonError ''Recording not found'')"
proof -
  have a: "wf_db (db world1)" by (simp add: wf_db_def world1_def row1_def)
  have b: "rowid_of_text deps0 ''1'' = Some 1" by (simp add: deps0_def)
  have c: "1 \<in> id_col ` set (rows (db world1))" by (simp add: world1_def row1_def)
  have d: "get_error env2 = None" "remove_error env2 = None" "run_error env2 = None"
    by (simp_all add: env2_def)
  have e: "delete_recording deps0 env2 ''1'' world1
             = (fst (delete_recording deps0 env2 ''1'' world1),
                snd (delete_recording deps0 env2 ''1'' world1))" by simp
  note t = delete_removes_exactly_that_row [OF a b c d e]
  note r = t [THEN conjunct1]
  note later = t [THEN conjunct2, THEN conjunct2, THEN spec, of "[(env2, post1)]",
      THEN spec, of env2]
  from later [THEN conjunct2, THEN spec, of "''1''", THEN mp, OF b] d(1)
  have g: "fst (get_recording deps0 env2 ''1''
              (snd (run deps0 (snd (delete_recording deps0 env2 ''1'' world1)) [(env2, post1)])))
        = (404, JsonError ''Recording not found'')" by simp
  show ?thesis
    by (intro conjI a b c d r g)
qed

theorem delete_counterexample:
  "wf_db (db world_two_high)
   \<and> rowid_of_text deps_high ''9007199254740996'' = Some 9007199254740996
   \<and> map id_col (rows (db world_two_high)) = [9007199254740995, 9007199254740996]
   \<and> fst (delete_recording deps_high env2 ''9007199254740996'' world_two_high)
        = (200, JsonMessage ''Recording deleted successfully'')
   \<and> listed_ids (fst (get_recordings env2
        (snd (delete_recording deps_high env2 ''9007199254740996'' world_two_high))))
        = [9007199254740996]
   \<and> remove_error env_busy_write = None
   \<and> fst (delete_recording deps0 env_busy_write ''1'' world1)
        = (500, JsonError ''Failed to delete recording'')
   \<and> rows (db (snd (delete_recording deps0 env_busy_write ''1'' world1))) = [row1]"
proof -
  have a: "wf_db (db world_two_high)"
    by (simp add: wf_db_def world_two_high_def row_a_def row_b_def)
  have b: "rowid_of_text deps_high ''9007199254740996'' = Some 9007199254740996"
    by (simp add: deps_high_def)
  have c: "map id_col (rows (db world_two_high)) = [9007199254740995, 9007199254740996]"
    by (simp add: world_two_high_def row_a_def row_b_def)
  have d: "remove_error env_busy_write = None" by (simp add: env_busy_write_def env2_def)
  note l = listing_high [OF delete_high [THEN conjunct2]]
  show ?thesis
    by (intro conjI a b c d l delete_high [THEN conjunct1] delete_busy_write [THEN conjunct1]
        delete_busy_write [THEN conjunct2])
qed



text \<open>
  C9. A Create request without a file part is answered 400 with "No file uploaded" and
  leaves the world as it was: no upload was sent and no row was inserted.
\<close>

theorem create_no_file_rejected:
  assumes "files q = []"
  shows "post_route c e q w = ((400, JsonError ''No file uploaded''), w)"
  using assms by (simp add: post_route_def single_Nil post_recordings_def)

theorem create_no_file_rejected_witness:
  "files post_empty = []
   \<and> post_route deps0 env1 post_empty world1 = ((400, JsonError ''No file uploaded''), world1)
   \<and> calls world1 = [Upload ''recording-1704110405123.webm'' payload1 ''video/webm'']
   \<and> rows (db world1) = [row1]"
proof -
  have f: "files post_empty = []" by (simp add: post_empty_def)
  from create_no_file_rejected [OF f, of deps0 env1 world1] f show ?thesis
    by (simp add: world1_def)
qed

text \<open>
  C5, as amended. A listing whose query the engine carries out is answered 200 with
  all rows of the table, as row objects, ordered by \<open>createdAt\<close> descending; one whose
  query the engine rejects is answered 500 with "Failed to fetch recordings". When the
  table is empty and every request of a run is a successful create (each answered 201),
  and the timestamps the store assigns to them increase strictly from one request to
  the next, a listing after the run that the engine carries out has as many rows as
  there were requests and carries the ids the creates returned in reverse order, the
  latest first.

  As stated the claim fails: of two creates with distinct timestamps of which the
  second is the earlier, the listing shows the first one first.
\<close>

theorem list_newest_first:
  "(all_error e0 = None \<longrightarrow>
      (\<exists>ordered. get_recordings e0 w0 = ((200, JsonRows (map js_row ordered)), w0)
         \<and> sorted_wrt (\<lambda>a b. createdAt b \<le> createdAt a) ordered
         \<and> mset ordered = mset (rows (db w0))))
   \<and> (all_error e0 \<noteq> None \<longrightarrow>
        get_recordings e0 w0 = ((500, JsonError ''Failed to fetch recordings''), w0))
   \<and> (rows (db w) = [] \<and> (\<forall>r \<in> set (fst (run c w qs)). fst r = 201)
        \<and> sorted_wrt (<) (map (\<lambda>eq. current_timestamp (fst eq)) qs)
        \<and> all_error e = None
      \<longrightarrow> fst (fst (get_recordings e (snd (run c w qs)))) = 200
        \<and> length (listed_ids (fst (get_recordings e (snd (run c w qs))))) = length qs
        \<and> listed_ids (fst (get_recordings e (snd (run c w qs))))
            = rev (List.map_filter created_id (fst (run c w qs))))"
proof (intro conjI impI)
  assume "all_error e0 = None"
  then show "\<exists>ordered. get_recordings e0 w0 = ((200, JsonRows (map js_row ordered)), w0)
         \<and> sorted_wrt (\<lambda>a b. createdAt b \<le> createdAt a) ordered
         \<and> mset ordered = mset (rows (db w0))"
    by (intro exI [of _ "order_by_createdAt_desc (rows (db w0))"])
      (simp add: get_recordings_def db_all_def sorted_order_by mset_order_by)
next
  assume "all_error e0 \<noteq> None"
  then show "get_recordings e0 w0 = ((500, JsonError ''Failed to fetch recordings''), w0)"
    by (auto simp: get_recordings_def db_all_def)
next
  assume h: "rows (db w) = [] \<and> (\<forall>r \<in> set (fst (run c w qs)). fst r = 201)
        \<and> sorted_wrt (<) (map (\<lambda>eq. current_timestamp (fst eq)) qs)
        \<and> all_error e = None"
  let ?w = "snd (run c w qs)"
  from h run_all_created [of c w qs]
  have ts: "map createdAt (rows (db ?w)) = map (\<lambda>eq. current_timestamp (fst eq)) qs"
    and ids: "map (\<lambda>x. number_of_int (id_col x)) (rows (db ?w))
                = List.map_filter created_id (fst (run c w qs))"
    by simp_all
  from ts h have "sorted_wrt (<) (map createdAt (rows (db ?w)))" by simp
  then have ord: "order_by_createdAt_desc (rows (db ?w)) = rev (rows (db ?w))"
    by (rule order_by_increasing)
  from h have g: "get_recordings e ?w = ((200, JsonRows (map js_row (rev (rows (db ?w))))), ?w)"
    by (simp add: get_recordings_def db_all_def ord)
  then show "fst (fst (get_recordings e ?w)) = 200" by simp
  from g have l: "listed_ids (fst (get_recordings e ?w))
                    = rev (map (\<lambda>x. number_of_int (id_col x)) (rows (db ?w)))"
    by (simp add: listed_ids_def js_row_def rev_map comp_def)
  from ts have "length (rows (db ?w)) = length qs"
    by (metis length_map)
  with l show "length (listed_ids (fst (get_recordings e ?w))) = length qs" by simp
  from l ids show "listed_ids (fst (get_recordings e ?w))
            = rev (List.map_filter created_id (fst (run c w qs)))" by simp
qed

theorem list_newest_first_witness:
  "rows (db world0) = []
   \<and> map fst (fst (run deps0 world0 [(env1, post1), (env2, post1)])) = [201, 201]
   \<and> sorted_wrt (<) (map current_timestamp [env1, env2])
   \<and> all_error env2 = None
   \<and> listed_ids (fst (get_recordings env2 (snd (run deps0 world0 [(env1, post1), (env2, post1)]))))
        = [2, 1]"
proof -
  let ?qs = "[(env1, post1), (env2, post1)]"
  have a: "rows (db world0) = []" by (simp add: world0_def)
  have b: "map fst (fst (run deps0 world0 ?qs)) = [201, 201]"
    by (simp add: run_two del: run.simps(2))
  then have b': "\<forall>r \<in> set (fst (run deps0 world0 ?qs)). fst r = 201"
    by (simp add: run_two del: run.simps(2))
  have c: "sorted_wrt (<) (map current_timestamp [env1, env2])"
    by (simp add: env1_def env2_def)
  then have c': "sorted_wrt (<) (map (\<lambda>eq. current_timestamp (fst eq)) ?qs)"
    by simp
  have d: "all_error env2 = None" by (simp add: env2_def)
  have ids: "List.map_filter created_id (fst (run deps0 world0 ?qs)) = [1, 2]"
    by (simp add: run_two List.map_filter_simps created_id_def row1_def row2_def
        del: run.simps(2))
  from list_newest_first [of env2 world0 world0 deps0 ?qs env2] a b' c' d
  have "listed_ids (fst (get_recordings env2 (snd (run deps0 world0 ?qs))))
          = rev (List.map_filter created_id (fst (run deps0 world0 ?qs)))"
    by blast
  with ids have "listed_ids (fst (get_recordings env2 (snd (run deps0 world0 ?qs)))) = [2, 1]"
    by simp
  with a b c d show ?thesis by blast
qed

theorem list_order_counterexample:
  "rows (db world0) = []
   \<and> map fst (fst (run deps0 world0 [(env1, post1), (env_back, post1)])) = [201, 201]
   \<and> List.map_filter created_id (fst (run deps0 world0 [(env1, post1), (env_back, post1)]))
        = [1, 2]
   \<and> map createdAt (rows (db (snd (run deps0 world0 [(env1, post1), (env_back, post1)]))))
        = [''2024-01-01 12:00:05'', ''2024-01-01 12:00:03'']
   \<and> distinct (map createdAt
         (rows (db (snd (run deps0 world0 [(env1, post1), (env_back, post1)])))))
   \<and> listed_ids (fst (get_recordings env2
         (snd (run deps0 world0 [(env1, post1), (env_back, post1)])))) = [1, 2]
   \<and> listed_ids (fst (get_recordings env2
         (snd (run deps0 world0 [(env1, post1), (env_back, post1)]))))
        \<noteq> rev (List.map_filter created_id
                  (fst (run deps0 world0 [(env1, post1), (env_back, post1)])))
   \<and> fst (get_recordings env_busy world1) = (500, JsonError ''Failed to fetch recordings'')"
proof -
  let ?qs = "[(env1, post1), (env_back, post1)]"
  have a: "rows (db world0) = []" by (simp add: world0_def)
  have l: "listed_ids (fst (get_recordings env2 (snd (run deps0 world0 ?qs)))) = [1, 2]"
    by (rule listing_two_back [OF run_two_back [THEN conjunct2]])
  have ids: "List.map_filter created_id (fst (run deps0 world0 ?qs)) = [1, 2]"
    by (simp add: run_two_back List.map_filter_simps created_id_def row1_def row_back_def
        del: run.simps(2))
  have st: "map fst (fst (run deps0 world0 ?qs)) = [201, 201]"
    by (simp add: run_two_back del: run.simps(2))
  have ts: "map createdAt (rows (db (snd (run deps0 world0 ?qs))))
              = [''2024-01-01 12:00:05'', ''2024-01-01 12:00:03'']"
    by (simp add: run_two_back row1_def row_back_def del: run.simps(2))
  have busy: "fst (get_recordings env_busy world1)
                = (500, JsonError ''Failed to fetch recordings'')"
    by (simp add: get_recordings_def db_all_def env_busy_def)
  from a l ids st ts busy show ?thesis by simp
qed

text \<open>
  C6, as amended. In any run of requests from any state, as long as the counter of the
  table is at most \<open>2 ^ 53\<close> at the end, the ids that the successful creates return
  increase strictly in the order of the requests, whatever is deleted in between, so
  none is returned twice; each exceeds the counter the table had when the run began,
  and the id of every row the table then held when that table is one the server's
  statements leave. Without that bound the store still never reuses an id: the counter
  never decreases, and an id at most the counter that has no row never gets one.

  As stated the claim fails: from a counter of 9007199254740994 two successful creates
  insert the ids 9007199254740995 and 9007199254740996 and both return
  9007199254740996, the number nearest to either.
\<close>

theorem create_ids_increase:
  "(seq (db (snd (run c w qs))) \<le> 2 ^ 53 \<longrightarrow>
      sorted_wrt (<) (List.map_filter created_id (fst (run c w qs)))
      \<and> (\<forall>k \<in> set (List.map_filter created_id (fst (run c w qs))).
            seq (db w) < k
            \<and> (wf_db (db w) \<longrightarrow> (\<forall>x \<in> set (rows (db w)). id_col x < k))))
   \<and> seq (db w) \<le> seq (db (snd (run c w qs)))
   \<and> (\<forall>i. retired i (db w) \<longrightarrow> retired i (db (snd (run c w qs))))"
proof (intro conjI impI allI)
  assume b: "seq (db (snd (run c w qs))) \<le> 2 ^ 53"
  note ids = run_created_ids [OF b]
  from ids show "sorted_wrt (<) (List.map_filter created_id (fst (run c w qs)))" ..
  have "\<forall>x \<in> set (rows (db w)). id_col x < k" if "seq (db w) < k" "wf_db (db w)" for k
    using that by (fastforce simp: wf_db_def list_all_iff)
  with ids show "\<forall>k \<in> set (List.map_filter created_id (fst (run c w qs))).
            seq (db w) < k
            \<and> (wf_db (db w) \<longrightarrow> (\<forall>x \<in> set (rows (db w)). id_col x < k))"
    by blast
next
  show "seq (db w) \<le> seq (db (snd (run c w qs)))" by (rule run_seq_mono)
next
  fix i assume "retired i (db w)"
  then show "retired i (db (snd (run c w qs)))" by (rule retired_run)
qed

theorem create_ids_increase_witness:
  "wf_db (db world0) \<and> retired 0 (db world0)
   \<and> List.map_filter created_id
        (fst (run deps0 world0 [(env1, post1), (env2, delete1), (env2, post1)])) = [1, 2]
   \<and> sorted_wrt (<) (List.map_filter created_id
        (fst (run deps0 world0 [(env1, post1), (env2, delete1), (env2, post1)])))
   \<and> retired 0 (db (snd (run deps0 world0 [(env1, post1), (env2, delete1), (env2, post1)])))"
proof -
  let ?qs = "[(env1, post1), (env2, delete1), (env2, post1)]"
  have ids: "List.map_filter created_id (fst (run deps0 world0 ?qs)) = [1, 2]"
    by (simp add: run_create_delete_create List.map_filter_simps created_id_def row1_def
        row2_def del: run.simps(2))
  have wf: "wf_db (db world0)" by (simp add: wf_db_def world0_def)
  have rt: "retired 0 (db world0)" by (simp add: retired_def world0_def)
  note t = create_ids_increase [of deps0 world0 ?qs]
  from t rt have rt': "retired 0 (db (snd (run deps0 world0 ?qs)))" by blast
  from ids have "sorted_wrt (<) (List.map_filter created_id (fst (run deps0 world0 ?qs)))"
    by simp
  with ids wf rt rt' show ?thesis by blast
qed

theorem create_ids_repeat_counterexample:
  "wf_db (db world_high)
   \<and> map fst (fst (run deps0 world_high [(env1, post1), (env2, post1)])) = [201, 201]
   \<and> List.map_filter created_id (fst (run deps0 world_high [(env1, post1), (env2, post1)]))
        = [9007199254740996, 9007199254740996]
   \<and> map id_col (rows (db (snd (run deps0 world_high [(env1, post1), (env2, post1)]))))
        = [9007199254740995, 9007199254740996]
   \<and> \<not> sorted_wrt (<) (List.map_filter created_id
          (fst (run deps0 world_high [(env1, post1), (env2, post1)])))"
proof -
  let ?qs = "[(env1, post1), (env2, post1)]"
  have wf: "wf_db (db world_high)" by (simp add: wf_db_def world_high_def)
  have st: "map fst (fst (run deps0 world_high ?qs)) = [201, 201]"
    by (simp add: run_two_high del: run.simps(2))
  have ids: "List.map_filter created_id (fst (run deps0 world_high ?qs))
               = [9007199254740996, 9007199254740996]"
    by (simp add: run_two_high List.map_filter_simps created_id_def row_a_def row_b_def
        del: run.simps(2))
  have rws: "map id_col (rows (db (snd (run deps0 world_high ?qs))))
               = [9007199254740995, 9007199254740996]"
    by (simp add: run_two_high world_two_high_def row_a_def row_b_def del: run.simps(2))
  from wf st ids rws show ?thesis by simp
qed

text \<open>
  C7, as amended. The recording of a 201 reply agrees with the row the request
  inserted on filename, url and filesize. Its id is the row's id as a JavaScript
  number, equal to it while ids are at most \<open>2 ^ 53\<close>. Its \<open>createdAt\<close> is the handler's
  own reading of the clock (line 107), and the row's is the timestamp the store
  assigned.

  As stated the claim fails: the reply has \<open>2024-01-01T12:00:05.140Z\<close> where the row has
  \<open>2024-01-01 12:00:05\<close>, and from a counter of 9007199254740994 the reply has the id
  9007199254740996 where the row has 9007199254740995.
\<close>

theorem create_reply_fields:
  assumes "post_route c e q w = ((201, JsonCreated m rc), w')"
  shows "\<exists>k. rows (db w') = rows (db w) @ [rc\<lparr>id_col := k, createdAt := current_timestamp e\<rparr>]
           \<and> id_col rc = number_of_int k
           \<and> (k \<le> 2 ^ 53 \<longrightarrow> id_col rc = k)
           \<and> createdAt rc = iso_now e"
proof -
  from post_route_201 [OF assms] obtain payload :: bytes and k
    where rc0: "JsonCreated m rc = JsonCreated ''Recording uploaded successfully''
             \<lparr>id_col = number_of_int k, filename = uniqueName e,
              url = getPublicUrl (public_base c) (uniqueName e),
              filesize = length payload, createdAt = iso_now e\<rparr>"
      and db': "db w' = \<lparr>rows = rows (db w) @
                   [\<lparr>id_col = k, filename = uniqueName e,
                     url = getPublicUrl (public_base c) (uniqueName e),
                     filesize = length payload, createdAt = current_timestamp e\<rparr>], seq = k\<rparr>"
      and pos: "0 < k"
    by blast
  from rc0 have rc: "rc = \<lparr>id_col = number_of_int k, filename = uniqueName e,
              url = getPublicUrl (public_base c) (uniqueName e),
              filesize = length payload, createdAt = iso_now e\<rparr>" by simp
  have "k \<le> 2 ^ 53 \<longrightarrow> number_of_int k = k"
    using pos by (auto intro: number_of_int_exact)
  with rc db' show ?thesis by (intro exI [of _ k]) simp
qed

theorem create_reply_fields_witness:
  "post_route deps0 env1 post1 world0 =
     ((201, JsonCreated ''Recording uploaded successfully''
              (row1\<lparr>createdAt := ''2024-01-01T12:00:05.140Z''\<rparr>)), world1)
   \<and> rows (db world1) = rows (db world0) @ [row1]
   \<and> id_col row1 = 1
   \<and> iso_now env1 = ''2024-01-01T12:00:05.140Z''"
  using create_reply_fields [OF world1_run] world1_run
  by (simp add: env1_def row1_def world1_def world0_def)

theorem create_reply_createdAt_counterexample:
  "fst (post_route deps0 env1 post1 world0) =
     (201, JsonCreated ''Recording uploaded successfully''
             (row1\<lparr>createdAt := ''2024-01-01T12:00:05.140Z''\<rparr>))
   \<and> rows (db (snd (post_route deps0 env1 post1 world0))) = [row1]
   \<and> createdAt (row1\<lparr>createdAt := ''2024-01-01T12:00:05.140Z''\<rparr>) \<noteq> createdAt row1
   \<and> row1\<lparr>createdAt := ''2024-01-01T12:00:05.140Z''\<rparr> \<noteq> row1
   \<and> fst (post_route deps0 env1 post1 world_high) =
       (201, JsonCreated ''Recording uploaded successfully''
               (row_a\<lparr>id_col := 9007199254740996, createdAt := ''2024-01-01T12:00:05.140Z''\<rparr>))
   \<and> rows (db (snd (post_route deps0 env1 post1 world_high))) = [row_a]
   \<and> id_col row_a = 9007199254740995"
proof -
  have a: "fst (post_route deps0 env1 post1 world0) =
     (201, JsonCreated ''Recording uploaded successfully''
             (row1\<lparr>createdAt := ''2024-01-01T12:00:05.140Z''\<rparr>))"
    "rows (db (snd (post_route deps0 env1 post1 world0))) = [row1]"
    by (simp_all add: world1_run) (simp add: world1_def)
  have b: "createdAt (row1\<lparr>createdAt := ''2024-01-01T12:00:05.140Z''\<rparr>) \<noteq> createdAt row1"
    "row1\<lparr>createdAt := ''2024-01-01T12:00:05.140Z''\<rparr> \<noteq> row1"
    "id_col row_a = 9007199254740995"
    by (simp_all add: row1_def row_a_def)
  have c: "rows (db (snd (post_route deps0 env1 post1 world_high))) = [row_a]"
    by (simp add: first_upload_high)
  from a b c first_upload_high [THEN conjunct1] show ?thesis by blast
qed

text \<open>
  C8, as amended. A request that the CORS and body-parsing middleware let through,
  that is no preflight, that matches none of the four API routes and that the frontend
  does not answer (there is no build folder, or the method is neither GET nor HEAD) is
  answered 404 with the text "Route not found", and the world is unchanged.
\<close>

theorem unmatched_request_fallback:
  assumes "origin_allowed (origin q)" and "http_method q \<noteq> OPTIONS"
    and "body_refused q = None"
    and "api_route q = None"
    and "buildFolder c = None \<or> \<not> is_get (http_method q)"
  shows "app c e q w = ((404, Text ''Route not found''), w)"
  using assms by (auto simp: app_def frontend_or_404_def split: option.splits)

theorem unmatched_request_fallback_witness:
  "origin_allowed (origin put_page) \<and> http_method put_page \<noteq> OPTIONS
   \<and> body_refused put_page = None
   \<and> api_route put_page = None \<and> buildFolder deps_built = Some ''/srv/frontend/dist''
   \<and> \<not> is_get (http_method put_page)
   \<and> app deps_built env1 put_page world1 = ((404, Text ''Route not found''), world1)"
proof -
  have a: "origin_allowed (origin put_page)"
    by (simp add: origin_allowed_def put_page_def get_page_def)
  have b: "http_method put_page \<noteq> OPTIONS" by (simp add: put_page_def get_page_def)
  have c: "body_refused put_page = None" by (simp add: put_page_def get_page_def)
  have d: "api_route put_page = None" by (simp add: api_route_def put_page_def get_page_def)
  have e: "\<not> is_get (http_method put_page)"
    by (simp add: is_get_def put_page_def get_page_def)
  have f: "buildFolder deps_built = Some ''/srv/frontend/dist''"
    by (simp add: deps_built_def)
  from e have "buildFolder deps_built = None \<or> \<not> is_get (http_method put_page)" ..
  from unmatched_request_fallback [OF a b c d this] a b c d e f show ?thesis by blast
qed

theorem unmatched_get_counterexample:
  "api_route get_page = None
   \<and> app deps_built env1 get_page world0 = ((200, SentFile ''/srv/frontend/dist/index.html''), world0)
   \<and> fst (app deps_built env1 get_page world0) \<noteq> (404, Text ''Route not found'')"
  by (simp add: app_def frontend_or_404_def api_route_def origin_allowed_def is_get_def
      get_page_def deps_built_def deps0_def)

text \<open>
  C10. The row a successful create inserts has as filename the name under which the
  payload was uploaded, that name is the last path segment of the row's url, and a
  Delete request whose lookup finds the row asks the provider to remove exactly that
  name.
\<close>

theorem created_row_names_its_object:
  assumes "post_route c e q w = ((201, JsonCreated m rc), w')"
  shows "\<exists>row payload. rows (db w') = rows (db w) @ [row]
       \<and> id_col rc = number_of_int (id_col row)
       \<and> calls w' = calls w @ [Upload (filename row) payload ''video/webm'']
       \<and> objects w' (filename row) = Some payload
       \<and> pop (split_on CHR ''/'' (url row)) = filename row
       \<and> (\<forall>e2 p w2. db_get (rowid_of_text c) p (get_error e2) (db w2) = Inr (Some (js_row row))
             \<longrightarrow> calls (snd (delete_recording c e2 p w2)) = calls w2 @ [Remove [filename row]])"
proof -
  from post_route_201 [OF assms] obtain payload k
    where rc: "JsonCreated m rc = JsonCreated ''Recording uploaded successfully''
             \<lparr>id_col = number_of_int k, filename = uniqueName e,
              url = getPublicUrl (public_base c) (uniqueName e),
              filesize = length payload, createdAt = iso_now e\<rparr>"
      and db': "db w' = \<lparr>rows = rows (db w) @
                   [\<lparr>id_col = k, filename = uniqueName e,
                     url = getPublicUrl (public_base c) (uniqueName e),
                     filesize = length payload, createdAt = current_timestamp e\<rparr>], seq = k\<rparr>"
      and obj: "objects w' = (objects w)(uniqueName e \<mapsto> payload)"
      and cl: "calls w' = calls w @ [Upload (uniqueName e) payload ''video/webm'']"
    by blast
  let ?row = "\<lparr>id_col = k, filename = uniqueName e,
                url = getPublicUrl (public_base c) (uniqueName e),
                filesize = length payload, createdAt = current_timestamp e\<rparr>"
  have seg: "pop (split_on CHR ''/'' (url ?row)) = filename ?row"
    using pop_getPublicUrl [OF uniqueName_no_slash] by simp
  have del: "calls (snd (delete_recording c e2 p w2)) = calls w2 @ [Remove [filename ?row]]"
    if "db_get (rowid_of_text c) p (get_error e2) (db w2) = Inr (Some (js_row ?row))"
    for e2 p w2
    using that seg
    by (simp add: delete_recording_def storage_remove_def js_row_def Let_def
        split: option.splits sum.splits)
  from rc have "id_col rc = number_of_int (id_col ?row)" by simp
  with db' obj cl seg del show ?thesis
    by (intro exI [of _ ?row] exI [of _ payload]) simp
qed

theorem created_row_names_its_object_witness:
  "post_route deps0 env1 post1 world0 =
     ((201, JsonCreated ''Recording uploaded successfully''
              (row1\<lparr>createdAt := ''2024-01-01T12:00:05.140Z''\<rparr>)), world1)
   \<and> filename row1 = ''recording-1704110405123.webm''
   \<and> pop (split_on CHR ''/'' (url row1)) = filename row1
   \<and> calls world1 = calls world0 @ [Upload (filename row1) payload1 ''video/webm'']"
proof -
  from created_row_names_its_object [OF world1_run] obtain row payload
    where r: "rows (db world1) = rows (db world0) @ [row]"
      and c: "calls world1 = calls world0 @ [Upload (filename row) payload ''video/webm'']"
      and p: "pop (split_on CHR ''/'' (url row)) = filename row"
    by blast
  from r have row: "row = row1" by (simp add: world1_def world0_def)
  from c row have "payload = payload1" by (simp add: world1_def world0_def)
  with c p row world1_run show ?thesis by (simp add: row1_def)
qed

end
